theory Spec2Isabelle
  imports Main "HOL-Library.Word"
begin

unbundle bit_operations_syntax

section \<open>Runes\<close>

text \<open>
  Go's \<open>rune\<close> is a Unicode code point, a natural number here. A string is read rune by
  rune (\<open>for _, c := range name\<close>, \<open>[]rune(p.Buffer)\<close>), so a Go string is the list of
  its runes. \<open>rune CHR ''a''\<close> is the source's rune literal \<open>'a'\<close>.
\<close>

type_synonym rune = nat

definition rune :: "char \<Rightarrow> rune" where
  "rune c = of_char c"

section \<open>The spiff context (spiffing/spiff.go)\<close>

text \<open>
  The struct \<open>spiff\<close> of spiffing/spiff.go. The Go \<open>int\<close> field \<open>mode\<close> is a 64-bit
  word, the interface-typed field \<open>fs\<close> is an option (\<open>None\<close> is Go's \<open>nil\<close>), and the
  types of the other packages stay type parameters (\<open>funcs\<close> is the field \<open>functions\<close>,
  \<open>values_of\<close> the field \<open>values\<close>). The field \<open>opts\<close> is never written by
  the file and is left out.
\<close>

record ('fs, 'node, 'funcs, 'tag, 'binding) spiff =
  key :: string
  mode :: "64 word"
  fs :: "'fs option"
  values_of :: "(string \<rightharpoonup> 'node) option"
  funcs :: "'funcs option"
  tags :: "(string \<rightharpoonup> 'tag) option"
  interpolation :: bool
  binding :: "'binding option"

text \<open>
  \<open>New\<close>: the encryption key and the interpolation flag come from the package
  \<open>features\<close>, and \<open>MODE_DEFAULT\<close> is declared outside this file; all three are
  parameters. Fields the struct literal does not name have Go's zero value.
\<close>

definition New :: "string \<Rightarrow> 64 word \<Rightarrow> bool \<Rightarrow> ('fs, 'node, 'funcs, 'tag, 'binding) spiff" where
  "New encryption_key MODE_DEFAULT interpol =
     \<lparr>key = encryption_key, mode = MODE_DEFAULT, fs = None, values_of = None,
      funcs = None, tags = None, interpolation = interpol, binding = None\<rparr>"

definition Reset :: "('fs, 'node, 'funcs, 'tag, 'binding) spiff \<Rightarrow> ('fs, 'node, 'funcs, 'tag, 'binding) spiff" where
  "Reset s = s\<lparr>binding := None\<rparr>"

definition WithInterpolation ::
  "('fs, 'node, 'funcs, 'tag, 'binding) spiff \<Rightarrow> bool \<Rightarrow> ('fs, 'node, 'funcs, 'tag, 'binding) spiff" where
  "WithInterpolation s b = Reset (s\<lparr>interpolation := b\<rparr>)"

definition WithEncryptionKey ::
  "('fs, 'node, 'funcs, 'tag, 'binding) spiff \<Rightarrow> string \<Rightarrow> ('fs, 'node, 'funcs, 'tag, 'binding) spiff" where
  "WithEncryptionKey s k = Reset (s\<lparr>key := k\<rparr>)"

text \<open>
  \<open>WithMode\<close> and \<open>WithFileSystem\<close>; the constant \<open>MODE_OS_ACCESS\<close> is declared
  outside this file and is the first parameter. Go's \<open>x & ^y\<close> is \<open>x AND NOT y\<close>.
\<close>

definition WithMode ::
  "64 word \<Rightarrow> ('fs, 'node, 'funcs, 'tag, 'binding) spiff \<Rightarrow> 64 word \<Rightarrow> ('fs, 'node, 'funcs, 'tag, 'binding) spiff" where
  "WithMode MODE_OS_ACCESS s m =
     (let m' = (if fs s \<noteq> None then m AND NOT MODE_OS_ACCESS else m)
      in Reset (s\<lparr>mode := m'\<rparr>))"

definition WithFileSystem ::
  "64 word \<Rightarrow> ('fs, 'node, 'funcs, 'tag, 'binding) spiff \<Rightarrow> 'fs option \<Rightarrow> ('fs, 'node, 'funcs, 'tag, 'binding) spiff" where
  "WithFileSystem MODE_OS_ACCESS s f =
     (let s1 = s\<lparr>fs := f\<rparr>;
          s2 = (if f \<noteq> None then s1\<lparr>mode := mode s1 AND NOT MODE_OS_ACCESS\<rparr> else s1)
      in Reset s2)"

definition WithFunctions ::
  "('fs, 'node, 'funcs, 'tag, 'binding) spiff \<Rightarrow> 'funcs option \<Rightarrow> ('fs, 'node, 'funcs, 'tag, 'binding) spiff" where
  "WithFunctions s f = Reset (s\<lparr>funcs := f\<rparr>)"

text \<open>
  \<open>WithValues\<close>: \<open>yaml.Sanitize\<close> is outside this file; its result (an error, or the
  map of nodes) is the parameter \<open>sanitized\<close>, read only when \<open>values\<close> is not nil. The
  error case returns no context, \<open>None\<close> here.
\<close>

definition WithValues ::
  "('fs, 'node, 'funcs, 'tag, 'binding) spiff \<Rightarrow> 'raw option \<Rightarrow> (string \<rightharpoonup> 'node) option
     \<Rightarrow> ('fs, 'node, 'funcs, 'tag, 'binding) spiff option" where
  "WithValues s vals sanitized =
     (case vals of
        None \<Rightarrow> Some (Reset (s\<lparr>values_of := None\<rparr>))
      | Some _ \<Rightarrow> (case sanitized of
                     None \<Rightarrow> None
                   | Some nodes \<Rightarrow> Some (Reset (s\<lparr>values_of := Some nodes\<rparr>))))"

text \<open>
  \<open>SetTag\<close> assigns into the map \<open>s.tags\<close>. The map is \<open>nil\<close> (\<open>None\<close>) in the context
  that \<open>New\<close> returns, and the assignment into a nil map panics: no context is returned,
  \<open>None\<close> here. \<open>CleanupTags\<close> installs an empty map. The map is shared with the context
  the method was called on; the model follows one context and returns the updated map in
  the new context.
\<close>

definition SetTag ::
  "('fs, 'node, 'funcs, 'tag, 'binding) spiff \<Rightarrow> string \<Rightarrow> 'tag
     \<Rightarrow> ('fs, 'node, 'funcs, 'tag, 'binding) spiff option" where
  "SetTag s name t =
     (case tags s of
        None \<Rightarrow> None
      | Some m \<Rightarrow> Some (Reset (s\<lparr>tags := Some (m(name \<mapsto> t))\<rparr>)))"

definition CleanupTags :: "('fs, 'node, 'funcs, 'tag, 'binding) spiff \<Rightarrow> ('fs, 'node, 'funcs, 'tag, 'binding) spiff" where
  "CleanupTags s = s\<lparr>binding := None, tags := Some Map.empty\<rparr>"

text \<open>
  \<open>assureBinding\<close> builds a binding from the state when there is none; the binding comes
  from the package \<open>flow\<close> and is the parameter \<open>b\<close>. \<open>Cascade\<close>, \<open>PrepareStubs\<close> and
  \<open>ApplyStubs\<close> change the context through \<open>Reset\<close> and \<open>assureBinding\<close> only.
\<close>

definition assureBinding ::
  "('fs, 'node, 'funcs, 'tag, 'binding) spiff \<Rightarrow> 'binding \<Rightarrow> ('fs, 'node, 'funcs, 'tag, 'binding) spiff" where
  "assureBinding s b = (if binding s = None then s\<lparr>binding := Some b\<rparr> else s)"

text \<open>
  The contexts a client can reach: \<open>New\<close>, then any sequence of the methods of the file
  that return or change a context.
\<close>

inductive reachable ::
  "64 word \<Rightarrow> 64 word \<Rightarrow> ('fs, 'node, 'funcs, 'tag, 'binding) spiff \<Rightarrow> bool"
  for MODE_OS_ACCESS MODE_DEFAULT :: "64 word" where
  r_New: "reachable MODE_OS_ACCESS MODE_DEFAULT (New k MODE_DEFAULT i)"
| r_Reset: "reachable MODE_OS_ACCESS MODE_DEFAULT s \<Longrightarrow> reachable MODE_OS_ACCESS MODE_DEFAULT (Reset s)"
| r_WithInterpolation:
    "reachable MODE_OS_ACCESS MODE_DEFAULT s \<Longrightarrow> reachable MODE_OS_ACCESS MODE_DEFAULT (WithInterpolation s b)"
| r_WithEncryptionKey:
    "reachable MODE_OS_ACCESS MODE_DEFAULT s \<Longrightarrow> reachable MODE_OS_ACCESS MODE_DEFAULT (WithEncryptionKey s k)"
| r_WithMode:
    "reachable MODE_OS_ACCESS MODE_DEFAULT s \<Longrightarrow> reachable MODE_OS_ACCESS MODE_DEFAULT (WithMode MODE_OS_ACCESS s m)"
| r_WithFileSystem:
    "reachable MODE_OS_ACCESS MODE_DEFAULT s \<Longrightarrow> reachable MODE_OS_ACCESS MODE_DEFAULT (WithFileSystem MODE_OS_ACCESS s f)"
| r_WithFunctions:
    "reachable MODE_OS_ACCESS MODE_DEFAULT s \<Longrightarrow> reachable MODE_OS_ACCESS MODE_DEFAULT (WithFunctions s fn)"
| r_WithValues:
    "reachable MODE_OS_ACCESS MODE_DEFAULT s \<Longrightarrow> WithValues s (vals :: unit option) san = Some s'
       \<Longrightarrow> reachable MODE_OS_ACCESS MODE_DEFAULT s'"
| r_SetTag:
    "reachable MODE_OS_ACCESS MODE_DEFAULT s \<Longrightarrow> SetTag s name t = Some s'
       \<Longrightarrow> reachable MODE_OS_ACCESS MODE_DEFAULT s'"
| r_CleanupTags:
    "reachable MODE_OS_ACCESS MODE_DEFAULT s \<Longrightarrow> reachable MODE_OS_ACCESS MODE_DEFAULT (CleanupTags s)"
| r_assureBinding:
    "reachable MODE_OS_ACCESS MODE_DEFAULT s \<Longrightarrow> reachable MODE_OS_ACCESS MODE_DEFAULT (assureBinding s b)"

definition os_access_off :: "64 word \<Rightarrow> ('fs, 'node, 'funcs, 'tag, 'binding) spiff \<Rightarrow> bool" where
  "os_access_off MODE_OS_ACCESS s \<longleftrightarrow> mode s AND MODE_OS_ACCESS = 0"

section \<open>Evaluation results (dynaml/expression.go)\<close>

text \<open>
  \<open>yaml.Issue\<close> is declared in the package \<open>yaml\<close>; expression.go reads and writes
  its fields \<open>Issue\<close> (the message), \<open>Nested\<close> and \<open>Sequence\<close>.
\<close>

datatype Issue = MkIssue (issue_text: string) (Nested: "Issue list") (Sequence: bool)

text \<open>
  The struct \<open>EvaluationInfo\<close>. \<open>RedirectPath\<close> is a slice compared with \<open>nil\<close>, so
  an option; the embedded \<open>yaml.NodeFlags\<close> is an integer combined with \<open>|=\<close>; the
  cleanups are of an interface type and stay a type parameter.
\<close>

record 'c EvaluationInfo =
  RedirectPath :: "string list option"
  Replace :: bool
  Merged :: bool
  Preferred :: bool
  KeyName :: string
  Source :: string
  LocalError :: bool
  Failed :: bool
  Undefined :: bool
  Raw :: bool
  Issue :: Issue
  Cleanups :: "'c list"
  NodeFlags :: "64 word"

definition DefaultInfo :: "'c EvaluationInfo" where
  "DefaultInfo =
     \<lparr>RedirectPath = None, Replace = False, Merged = False, Preferred = False,
      KeyName = [], Source = [], LocalError = False, Failed = False, Undefined = False,
      Raw = False, Issue = MkIssue [] [] False, Cleanups = [], NodeFlags = 0\<rparr>"

text \<open>\<open>Join\<close>: the receiver \<open>i\<close> is a copy, updated statement by statement and returned.\<close>

definition Join :: "'c EvaluationInfo \<Rightarrow> 'c EvaluationInfo \<Rightarrow> 'c EvaluationInfo" where
  "Join i o' =
     (let i1 = (if RedirectPath o' \<noteq> None then i\<lparr>RedirectPath := RedirectPath o'\<rparr> else i);
          i2 = i1\<lparr>Replace := Replace o'\<rparr>;
          i3 = i2\<lparr>Preferred := Preferred i2 \<or> Preferred o'\<rparr>;
          i4 = i3\<lparr>Merged := Merged i3 \<or> Merged o'\<rparr>;
          i5 = (if KeyName o' \<noteq> [] then i4\<lparr>KeyName := KeyName o'\<rparr> else i4);
          i6 = (if issue_text (Issue o') \<noteq> [] then i5\<lparr>Issue := Issue o'\<rparr> else i5);
          i7 = (if LocalError o' then i6\<lparr>LocalError := True\<rparr> else i6);
          i8 = (if Failed o' then i7\<lparr>Failed := True\<rparr> else i7);
          i9 = (if Undefined o' then i8\<lparr>Undefined := True\<rparr> else i8);
          i10 = i9\<lparr>NodeFlags := NodeFlags i9 OR NodeFlags o'\<rparr>
      in i10\<lparr>Cleanups := Cleanups i10 @ Cleanups o'\<rparr>)"

text \<open>
  What \<open>Evaluate\<close> returns in its \<open>interface{}\<close> result, as far as the type switch
  \<open>val.(Expression)\<close> tells values apart: \<open>nil\<close>, an expression (a deferred result),
  or any other value.
\<close>

datatype ('e, 'v) goval = Nil | Expr 'e | Other 'v

text \<open>
  \<open>ResolveExpressionOrPushEvaluation\<close>. The method \<open>Evaluate\<close> of the interface
  \<open>Expression\<close> and the function \<open>KeepArgWrapper\<close> (declared outside this file) are
  parameters. The pointers \<open>e\<close> and \<open>resolved\<close> are passed in and returned updated
  (\<open>res_e\<close>, \<open>res_resolved\<close>); the pointer \<open>info\<close> may be \<open>nil\<close>.
\<close>

record ('e, 'v, 'c) resolve_result =
  res_value :: "('e, 'v) goval"
  res_info :: "'c EvaluationInfo"
  res_ok :: bool
  res_e :: 'e
  res_resolved :: bool

definition ResolveExpressionOrPushEvaluation ::
  "('e \<Rightarrow> 'b \<Rightarrow> bool \<Rightarrow> ('e, 'v) goval \<times> 'c EvaluationInfo \<times> bool) \<Rightarrow> ('e \<Rightarrow> 'e \<Rightarrow> 'e)
     \<Rightarrow> 'e \<Rightarrow> bool \<Rightarrow> 'c EvaluationInfo option \<Rightarrow> 'b \<Rightarrow> bool \<Rightarrow> ('e, 'v, 'c) resolve_result" where
  "ResolveExpressionOrPushEvaluation Evaluate KeepArgWrapper e resolved info bdg locally =
     (case Evaluate e bdg locally of
        (val, infoe0, ok) \<Rightarrow>
          (let infoe = (case info of None \<Rightarrow> infoe0 | Some i \<Rightarrow> Join i infoe0)
           in if \<not> ok then
                \<lparr>res_value = Nil, res_info = infoe, res_ok = False, res_e = e, res_resolved = resolved\<rparr>
              else (case val of
                      Expr v \<Rightarrow>
                        \<lparr>res_value = Nil, res_info = infoe, res_ok = True,
                         res_e = KeepArgWrapper v e, res_resolved = False\<rparr>
                    | _ \<Rightarrow>
                        \<lparr>res_value = val, res_info = infoe, res_ok = True,
                         res_e = e, res_resolved = resolved\<rparr>)))"

section \<open>Tag names (dynaml/expression.go)\<close>

text \<open>
  \<open>CheckTagName\<close>: the three errors it returns, and its loop over the runes of the name
  with the counter \<open>l\<close> of runes seen in the current component. The counter is
  incremented before the digit test reads it, as in the source.
\<close>

datatype tag_error = EmptyComponent | StartsWithDigit | InvalidCharacter rune

fun CheckTagName_loop :: "nat \<Rightarrow> rune list \<Rightarrow> tag_error option" where
  "CheckTagName_loop l [] = None"
| "CheckTagName_loop l (c # cs) =
     (if c = rune CHR '':'' then
        (if l = 0 then Some EmptyComponent else CheckTagName_loop 0 cs)
      else
        (let l' = l + 1 in
         if rune CHR ''0'' \<le> c \<and> c \<le> rune CHR ''9'' then
           (if l' = 1 then Some StartsWithDigit else CheckTagName_loop l' cs)
         else if rune CHR ''a'' \<le> c \<and> c \<le> rune CHR ''z'' then CheckTagName_loop l' cs
         else if rune CHR ''A'' \<le> c \<and> c \<le> rune CHR ''Z'' then CheckTagName_loop l' cs
         else Some (InvalidCharacter c)))"

definition CheckTagName :: "rune list \<Rightarrow> tag_error option" where
  "CheckTagName name = CheckTagName_loop 0 name"

text \<open>
  The description of the rejected names, in the words of the specification: the
  components of a name are the runs between its colons; a name is rejected when a colon
  follows an empty component, when a component starts with a digit, or when a rune other
  than the colon is neither an ASCII letter nor a digit.
\<close>

definition is_digit :: "rune \<Rightarrow> bool" where
  "is_digit c \<longleftrightarrow> rune CHR ''0'' \<le> c \<and> c \<le> rune CHR ''9''"

definition is_letter :: "rune \<Rightarrow> bool" where
  "is_letter c \<longleftrightarrow>
     (rune CHR ''a'' \<le> c \<and> c \<le> rune CHR ''z'') \<or> (rune CHR ''A'' \<le> c \<and> c \<le> rune CHR ''Z'')"

fun tag_components :: "rune list \<Rightarrow> rune list list" where
  "tag_components [] = [[]]"
| "tag_components (c # cs) =
     (if c = rune CHR '':'' then [] # tag_components cs
      else (c # hd (tag_components cs)) # tl (tag_components cs))"

definition tag_name_rejected :: "rune list \<Rightarrow> bool" where
  "tag_name_rejected name \<longleftrightarrow>
     (\<exists>comp \<in> set (butlast (tag_components name)). comp = []) \<or>
     (\<exists>comp \<in> set (tag_components name). comp \<noteq> [] \<and> is_digit (hd comp)) \<or>
     (\<exists>c \<in> set name. c \<noteq> rune CHR '':'' \<and> \<not> is_letter c \<and> \<not> is_digit c)"

section \<open>String literals (dynaml/string.go)\<close>

text \<open>
  \<open>StringExpr\<close> and its method \<open>Evaluate\<close>, which takes a binding and returns two
  results: the value and true.
\<close>

record StringExpr =
  Value :: string

definition StringExpr_Evaluate :: "StringExpr \<Rightarrow> 'b \<Rightarrow> string \<times> bool" where
  "StringExpr_Evaluate e bdg = (Value e, True)"

section \<open>WireGuard keys (dynaml/wireguard/key.go)\<close>

subsection \<open>Base64, from Go's standard library\<close>

text \<open>
  The package \<open>encoding/base64\<close> of Go's standard library is not part of the
  repository. Its \<open>StdEncoding\<close> is written here after its documentation (RFC 4648):
  the alphabet \<open>encodeStd\<close>, the padding character, three bytes to four characters of
  six bits each, a last group of one or two bytes padded with \<open>=\<close>. The decoder skips
  carriage returns and line feeds, accepts padding in the last group only, and does not
  check the unused bits of a padded group (the encoding is not strict). \<open>None\<close> is its
  \<open>CorruptInputError\<close>.
\<close>

type_synonym byte = "8 word"

definition encodeStd :: string where
  "encodeStd = ''ABCDEFGHIJKLMNOPQRSTUVWXYZabcdefghijklmnopqrstuvwxyz0123456789+/''"

definition StdPadding :: char where
  "StdPadding = CHR ''=''"

fun index_of :: "'a list \<Rightarrow> 'a \<Rightarrow> nat option" where
  "index_of [] c = None"
| "index_of (x # xs) c = (if x = c then Some 0 else map_option Suc (index_of xs c))"

definition encode_sextet :: "nat \<Rightarrow> char" where
  "encode_sextet n = encodeStd ! (n mod 64)"

definition decode_sextet :: "char \<Rightarrow> nat option" where
  "decode_sextet c = index_of encodeStd c"

fun EncodeToString :: "byte list \<Rightarrow> string" where
  "EncodeToString [] = []"
| "EncodeToString [a] =
     [encode_sextet (unat a div 4), encode_sextet (unat a mod 4 * 16), StdPadding, StdPadding]"
| "EncodeToString [a, b] =
     [encode_sextet (unat a div 4), encode_sextet (unat a mod 4 * 16 + unat b div 16),
      encode_sextet (unat b mod 16 * 4), StdPadding]"
| "EncodeToString (a # b # c # rest) =
     [encode_sextet (unat a div 4), encode_sextet (unat a mod 4 * 16 + unat b div 16),
      encode_sextet (unat b mod 16 * 4 + unat c div 64), encode_sextet (unat c mod 64)]
     @ EncodeToString rest"

definition quantum3 :: "char \<Rightarrow> char \<Rightarrow> char \<Rightarrow> char \<Rightarrow> byte list option" where
  "quantum3 a b c d =
     (case (decode_sextet a, decode_sextet b, decode_sextet c, decode_sextet d) of
        (Some i, Some j, Some k, Some l) \<Rightarrow>
          Some [of_nat (i * 4 + j div 16), of_nat (j mod 16 * 16 + k div 4), of_nat (k mod 4 * 64 + l)]
      | _ \<Rightarrow> None)"

definition quantum2 :: "char \<Rightarrow> char \<Rightarrow> char \<Rightarrow> byte list option" where
  "quantum2 a b c =
     (case (decode_sextet a, decode_sextet b, decode_sextet c) of
        (Some i, Some j, Some k) \<Rightarrow> Some [of_nat (i * 4 + j div 16), of_nat (j mod 16 * 16 + k div 4)]
      | _ \<Rightarrow> None)"

definition quantum1 :: "char \<Rightarrow> char \<Rightarrow> byte list option" where
  "quantum1 a b =
     (case (decode_sextet a, decode_sextet b) of
        (Some i, Some j) \<Rightarrow> Some [of_nat (i * 4 + j div 16)]
      | _ \<Rightarrow> None)"

fun decode_quanta :: "string \<Rightarrow> byte list option" where
  "decode_quanta [] = Some []"
| "decode_quanta [a, b, c, d] =
     (if c = StdPadding \<and> d = StdPadding then quantum1 a b
      else if d = StdPadding then quantum2 a b c
      else quantum3 a b c d)"
| "decode_quanta (a # b # c # d # rest) =
     (case quantum3 a b c d of
        None \<Rightarrow> None
      | Some bs \<Rightarrow> map_option ((@) bs) (decode_quanta rest))"
| "decode_quanta _ = None"

definition DecodeString :: "string \<Rightarrow> byte list option" where
  "DecodeString s = decode_quanta (filter (\<lambda>c. c \<noteq> CHR 0x0D \<and> c \<noteq> CHR 0x0A) s)"

subsection \<open>Keys\<close>

text \<open>
  \<open>Key\<close> is the array type \<open>[KeyLen]byte\<close>: the byte lists of length 32. \<open>NewKey\<close>
  checks the length of the slice and copies it; \<open>ParseKey\<close> decodes and calls
  \<open>NewKey\<close>; \<open>Key_String\<close> is the method \<open>String\<close>.
\<close>

definition KeyLen :: nat where
  "KeyLen = 32"

typedef Key = "{bs :: byte list. length bs = KeyLen}"
  by (rule exI [of _ "replicate KeyLen 0"]) simp

datatype key_error = IncorrectKeySize nat | ParseFailed

definition NewKey :: "byte list \<Rightarrow> key_error + Key" where
  "NewKey b = (if length b \<noteq> KeyLen then Inl (IncorrectKeySize (length b)) else Inr (Abs_Key b))"

definition ParseKey :: "string \<Rightarrow> key_error + Key" where
  "ParseKey s = (case DecodeString s of None \<Rightarrow> Inl ParseFailed | Some b \<Rightarrow> NewKey b)"

definition Key_String :: "Key \<Rightarrow> string" where
  "Key_String k = EncodeToString (Rep_Key k)"

section \<open>The expression parser (dynaml/dynaml.peg.go)\<close>

subsection \<open>The building blocks of the generated rule functions\<close>

text \<open>
  A rule function of dynaml.peg.go reads \<open>buffer\<close> from \<open>position\<close> on, returns
  whether it matched, and leaves \<open>position\<close> after the match, or where it was when it
  did not match. The buffer is the runes of the input followed by \<open>endSymbol\<close>
  (1114112, which is not a rune of any string), and no rule moves beyond \<open>endSymbol\<close>.
  A rule function is modelled as a function from the runes from \<open>position\<close> up to
  \<open>endSymbol\<close> to the runes that remain after the match, \<open>None\<close> when the rule does not
  match; the empty list is the position of \<open>endSymbol\<close>. A rule adds its token to the
  token tree exactly when it matches; the tree itself, \<open>tokenIndex\<close> and \<open>depth\<close> are
  not modelled.

  The generated code is built from six patterns, named here:
  \<^item> \<open>chr\<close>: \<^verbatim>\<open>if buffer[position] != rune('m') { goto fail }; position++\<close>;
  \<^item> \<open>cls\<close>: \<^verbatim>\<open>if c := buffer[position]; c < rune('0') || c > rune('9') { goto fail }; position++\<close>;
  \<^item> \<open>dot\<close>: \<open>matchDot\<close>, any rune but \<open>endSymbol\<close>;
  \<^item> \<open>seq\<close>: one part after the other, failing at the first that fails;
  \<^item> \<open>alt\<close>: the ordered choice, which restores the saved position before each
    further alternative;
  \<^item> \<open>opt\<close>, \<open>notp\<close> and \<open>star\<close>: the optional part, the negative lookahead (position
    restored, success exactly when the part fails) and the loop that repeats its body
    until it fails.
  \<open>action\<close> is a rule with an empty action \<open>{}\<close>, which always matches.
\<close>

type_synonym parser = "rune list \<Rightarrow> rune list option"

definition chr :: "char \<Rightarrow> parser" where
  "chr c buf = (case buf of [] \<Rightarrow> None | x # r \<Rightarrow> if x \<noteq> rune c then None else Some r)"

definition cls :: "char \<Rightarrow> char \<Rightarrow> parser" where
  "cls lo hi buf =
     (case buf of [] \<Rightarrow> None | x # r \<Rightarrow> if x < rune lo \<or> x > rune hi then None else Some r)"

definition dot :: parser where
  "dot buf = (case buf of [] \<Rightarrow> None | x # r \<Rightarrow> Some r)"

definition action :: parser where
  "action buf = Some buf"

primrec seq :: "parser list \<Rightarrow> parser" where
  "seq [] = (\<lambda>buf. Some buf)"
| "seq (p # ps) = (\<lambda>buf. case p buf of None \<Rightarrow> None | Some r \<Rightarrow> seq ps r)"

primrec alt :: "parser list \<Rightarrow> parser" where
  "alt [] = (\<lambda>buf. None)"
| "alt (p # ps) = (\<lambda>buf. case p buf of None \<Rightarrow> alt ps buf | Some r \<Rightarrow> Some r)"

definition opt :: "parser \<Rightarrow> parser" where
  "opt p buf = (case p buf of None \<Rightarrow> Some buf | Some r \<Rightarrow> Some r)"

definition notp :: "parser \<Rightarrow> parser" where
  "notp p buf = (case p buf of None \<Rightarrow> Some buf | Some r \<Rightarrow> None)"

definition lits :: "string \<Rightarrow> parser" where
  "lits s = seq (map chr s)"

text \<open>
  The loop of a starred part runs as long as its body matches. Every starred body of the
  grammar consumes at least one rune when it matches, so the loop ends; a body that
  matched without consuming would make the generated loop run forever. The model repeats
  the body only when the input got shorter and has no result (\<open>None\<close>) otherwise.
\<close>

function star :: "parser \<Rightarrow> parser" where
  "star p buf =
     (case p buf of
        None \<Rightarrow> Some buf
      | Some r \<Rightarrow> if length r < length buf then star p r else None)"
  by pat_completeness auto
termination
  by (relation "measure (\<lambda>(p, buf). length buf)") auto

definition plus1 :: "parser \<Rightarrow> parser" where
  "plus1 p = seq [p, star p]"

text \<open>
  The rules call each other through the table \<open>_rules\<close>. The model calls a rule's
  function directly, except where the grammar is recursive: the calls of the rules
  \<open>Expression\<close>, \<open>Level7\<close> and \<open>Level0\<close> from below \<open>Level0\<close>, and the call of
  \<open>ChainedQualifiedExpression\<close> from \<open>Projection\<close>, go through the table, which is the
  parameter \<open>R\<close> of each rule that needs it.
\<close>

datatype pegRule = ruleExpression | ruleLevel7 | ruleLevel0 | ruleChainedQualifiedExpression

subsection \<open>The rules below Level0\<close>

text \<open>Rule 102: \<^verbatim>\<open>ws <- (' ' / '\t' / '\n' / '\r')*\<close>\<close>

definition ws :: "parser" where
  "ws = star (alt [chr CHR '' '', chr CHR 0x09, chr CHR 0x0A, chr CHR 0x0D])"

text \<open>Rule 40: \<^verbatim>\<open>StartArguments <- ('(' ws)\<close>\<close>

definition StartArguments :: "parser" where
  "StartArguments = seq [chr CHR ''('', ws]"

text \<open>Rule 90: \<^verbatim>\<open>Name <- ([a-z] / [A-Z] / [0-9] / '_')+\<close>\<close>

definition Name_rule :: "parser" where
  "Name_rule = plus1 (alt [cls CHR ''a'' CHR ''z'',
                           cls CHR ''A'' CHR ''Z'',
                           cls CHR ''0'' CHR ''9'',
                           chr CHR ''_''])"

text \<open>Rule 42: \<^verbatim>\<open>NextNameArgument <- (ws Name ws '=' ws Expression ws)\<close>\<close>

definition NextNameArgument :: "(pegRule \<Rightarrow> parser) \<Rightarrow> parser" where
  "NextNameArgument R = seq [ws, Name_rule, ws, chr CHR ''='', ws, R ruleExpression, ws]"

text \<open>Rule 45: \<^verbatim>\<open>ListExpansion <- ('.' '.' '.' ws)\<close>\<close>

definition ListExpansion :: "parser" where
  "ListExpansion = seq [chr CHR ''.'', chr CHR ''.'', chr CHR ''.'', ws]"

text \<open>Rule 44: \<^verbatim>\<open>NextExpression <- (Expression ListExpansion?)\<close>\<close>

definition NextExpression :: "(pegRule \<Rightarrow> parser) \<Rightarrow> parser" where
  "NextExpression R = seq [R ruleExpression, opt ListExpansion]"

text \<open>Rule 41: \<^verbatim>\<open>NameArgumentList <- (((NextNameArgument (',' NextNameArgument)*) / NextExpression) (',' NextExpression)*)\<close>\<close>

definition NameArgumentList :: "(pegRule \<Rightarrow> parser) \<Rightarrow> parser" where
  "NameArgumentList R = seq [alt [seq [NextNameArgument R,
                                     star (seq [chr CHR '','', NextNameArgument R])],
                                NextExpression R],
                           star (seq [chr CHR '','', NextExpression R])]"

text \<open>Rule 39: \<^verbatim>\<open>ChainedCall <- (StartArguments NameArgumentList? ')')\<close>\<close>

definition ChainedCall :: "(pegRule \<Rightarrow> parser) \<Rightarrow> parser" where
  "ChainedCall R = seq [StartArguments, opt (NameArgumentList R), chr CHR '')'']"

text \<open>Rule 38: \<^verbatim>\<open>Currying <- ('*' ChainedCall)\<close>\<close>

definition Currying :: "(pegRule \<Rightarrow> parser) \<Rightarrow> parser" where
  "Currying R = seq [chr CHR ''*'', ChainedCall R]"

text \<open>Rule 99: \<^verbatim>\<open>Key <- (([a-z] / [A-Z] / [0-9] / '_') ([a-z] / [A-Z] / [0-9] / '_' / '-')* (':' ([a-z] / [A-Z] / [0-9] / '_') ([a-z] / [A-Z] / [0-9] / '_' / '-')*)?)\<close>\<close>

definition Key_rule :: "parser" where
  "Key_rule = seq [alt [cls CHR ''a'' CHR ''z'',
                        cls CHR ''A'' CHR ''Z'',
                        cls CHR ''0'' CHR ''9'',
                        chr CHR ''_''],
                   star (alt [cls CHR ''a'' CHR ''z'',
                              cls CHR ''A'' CHR ''Z'',
                              cls CHR ''0'' CHR ''9'',
                              chr CHR ''_'',
                              chr CHR ''-'']),
                   opt (seq [chr CHR '':'',
                             alt [cls CHR ''a'' CHR ''z'',
                                  cls CHR ''A'' CHR ''Z'',
                                  cls CHR ''0'' CHR ''9'',
                                  chr CHR ''_''],
                             star (alt [cls CHR ''a'' CHR ''z'',
                                        cls CHR ''A'' CHR ''Z'',
                                        cls CHR ''0'' CHR ''9'',
                                        chr CHR ''_'',
                                        chr CHR ''-''])])]"

text \<open>Rule 100: \<^verbatim>\<open>Index <- ('[' '-'? [0-9]+ ']')\<close>\<close>

definition Index_rule :: "parser" where
  "Index_rule = seq [chr CHR ''['',
                     opt (chr CHR ''-''),
                     plus1 (cls CHR ''0'' CHR ''9''),
                     chr CHR '']'']"

text \<open>Rule 98: \<^verbatim>\<open>PathComponent <- (('.' Key) / ('.'? Index))\<close>\<close>

definition PathComponent :: "parser" where
  "PathComponent = alt [seq [chr CHR ''.'', Key_rule], seq [opt (chr CHR ''.''), Index_rule]]"

text \<open>Rule 97: \<^verbatim>\<open>FollowUpRef <- PathComponent*\<close>\<close>

definition FollowUpRef :: "parser" where
  "FollowUpRef = star PathComponent"

text \<open>Rule 34: \<^verbatim>\<open>ChainedRef <- (PathComponent FollowUpRef)\<close>\<close>

definition ChainedRef :: "parser" where
  "ChainedRef = seq [PathComponent, FollowUpRef]"

text \<open>Rule 35: \<^verbatim>\<open>ChainedDynRef <- ('.'? '[' Expression ']')\<close>\<close>

definition ChainedDynRef :: "(pegRule \<Rightarrow> parser) \<Rightarrow> parser" where
  "ChainedDynRef R = seq [opt (chr CHR ''.''), chr CHR ''['', R ruleExpression, chr CHR '']'']"

text \<open>Rule 52: \<^verbatim>\<open>StartRange <- '['\<close>\<close>

definition StartRange :: "parser" where
  "StartRange = chr CHR ''[''"

text \<open>Rule 53: \<^verbatim>\<open>RangeOp <- ('.' '.')\<close>\<close>

definition RangeOp :: "parser" where
  "RangeOp = seq [chr CHR ''.'', chr CHR ''.'']"

text \<open>Rule 51: \<^verbatim>\<open>Range <- (StartRange Expression? RangeOp Expression? ']')\<close>\<close>

definition Range_rule :: "(pegRule \<Rightarrow> parser) \<Rightarrow> parser" where
  "Range_rule R = seq [StartRange,
                     opt (R ruleExpression),
                     RangeOp,
                     opt (R ruleExpression),
                     chr CHR '']'']"

text \<open>Rule 37: \<^verbatim>\<open>Slice <- Range\<close>\<close>

definition Slice :: "(pegRule \<Rightarrow> parser) \<Rightarrow> parser" where
  "Slice R = Range_rule R"

text \<open>Rule 104: \<^verbatim>\<open>Action0 <- {}\<close>\<close>

definition Action0 :: "parser" where
  "Action0 = action"

text \<open>Rule 47: \<^verbatim>\<open>ProjectionValue <- Action0\<close>\<close>

definition ProjectionValue :: "parser" where
  "ProjectionValue = Action0"

text \<open>Rule 46: \<^verbatim>\<open>Projection <- ('.'? (('[' '*' ']') / Slice) ProjectionValue ChainedQualifiedExpression*)\<close>\<close>

definition Projection :: "(pegRule \<Rightarrow> parser) \<Rightarrow> parser" where
  "Projection R = seq [opt (chr CHR ''.''),
                     alt [seq [chr CHR ''['', chr CHR ''*'', chr CHR '']''], Slice R],
                     ProjectionValue,
                     star (R ruleChainedQualifiedExpression)]"

text \<open>Rule 33: \<^verbatim>\<open>ChainedQualifiedExpression <- (ChainedCall / Currying / ChainedRef / ChainedDynRef / Projection)\<close>\<close>

definition ChainedQualifiedExpression :: "(pegRule \<Rightarrow> parser) \<Rightarrow> parser" where
  "ChainedQualifiedExpression R = alt [ChainedCall R,
                                     Currying R,
                                     ChainedRef,
                                     ChainedDynRef R,
                                     Projection R]"

text \<open>Rule 101: \<^verbatim>\<open>IP <- ([0-9]+ '.' [0-9]+ '.' [0-9]+ '.' [0-9]+)\<close>\<close>

definition IP :: "parser" where
  "IP = seq [plus1 (cls CHR ''0'' CHR ''9''),
             chr CHR ''.'',
             plus1 (cls CHR ''0'' CHR ''9''),
             chr CHR ''.'',
             plus1 (cls CHR ''0'' CHR ''9''),
             chr CHR ''.'',
             plus1 (cls CHR ''0'' CHR ''9'')]"

text \<open>Rule 55: \<^verbatim>\<open>String <- ('"' (('\\' '"') / (!'"' .))* '"')\<close>\<close>

definition String_rule :: "parser" where
  "String_rule = seq [chr CHR 0x22,
                      star (alt [seq [chr CHR 0x5C, chr CHR 0x22], seq [notp (chr CHR 0x22), dot]]),
                      chr CHR 0x22]"

text \<open>Rule 54: \<^verbatim>\<open>Number <- ('-'? [0-9] ([0-9] / '_')* ('.' [0-9] [0-9]*)? (('e' / 'E') '-'? [0-9] [0-9]*)? !(':' ':'))\<close>\<close>

definition Number :: "parser" where
  "Number = seq [opt (chr CHR ''-''),
                 cls CHR ''0'' CHR ''9'',
                 star (alt [cls CHR ''0'' CHR ''9'', chr CHR ''_'']),
                 opt (seq [chr CHR ''.'', cls CHR ''0'' CHR ''9'', star (cls CHR ''0'' CHR ''9'')]),
                 opt (seq [alt [chr CHR ''e'', chr CHR ''E''],
                           opt (chr CHR ''-''),
                           cls CHR ''0'' CHR ''9'',
                           star (cls CHR ''0'' CHR ''9'')]),
                 notp (seq [chr CHR '':'', chr CHR '':''])]"

text \<open>Rule 56: \<^verbatim>\<open>Boolean <- (('t' 'r' 'u' 'e') / ('f' 'a' 'l' 's' 'e'))\<close>\<close>

definition Boolean :: "parser" where
  "Boolean = alt [lits ''true'', lits ''false'']"

text \<open>Rule 58: \<^verbatim>\<open>Undefined <- ('~' '~')\<close>\<close>

definition Undefined_rule :: "parser" where
  "Undefined_rule = seq [chr CHR ''~'', chr CHR ''~'']"

text \<open>Rule 57: \<^verbatim>\<open>Nil <- (('n' 'i' 'l') / '~')\<close>\<close>

definition Nil_rule :: "parser" where
  "Nil_rule = alt [lits ''nil'', chr CHR ''~'']"

text \<open>Rule 59: \<^verbatim>\<open>Symbol <- ('$' Name)\<close>\<close>

definition Symbol :: "parser" where
  "Symbol = seq [chr CHR ''$'', Name_rule]"

text \<open>Rule 49: \<^verbatim>\<open>Not <- ('!' ws Level0)\<close>\<close>

definition Not_rule :: "(pegRule \<Rightarrow> parser) \<Rightarrow> parser" where
  "Not_rule R = seq [chr CHR ''!'', ws, R ruleLevel0]"

text \<open>Rule 48: \<^verbatim>\<open>Substitution <- ('*' Level0)\<close>\<close>

definition Substitution :: "(pegRule \<Rightarrow> parser) \<Rightarrow> parser" where
  "Substitution R = seq [chr CHR ''*'', R ruleLevel0]"

text \<open>Rule 103: \<^verbatim>\<open>req_ws <- (' ' / '\t' / '\n' / '\r')+\<close>\<close>

definition req_ws :: "parser" where
  "req_ws = plus1 (alt [chr CHR '' '', chr CHR 0x09, chr CHR 0x0A, chr CHR 0x0D])"

text \<open>Rule 70: \<^verbatim>\<open>Required <- ('r' 'e' 'q' 'u' 'i' 'r' 'e' 'd')\<close>\<close>

definition Required :: "parser" where
  "Required = lits ''required''"

text \<open>Rule 69: \<^verbatim>\<open>Replace <- ('r' 'e' 'p' 'l' 'a' 'c' 'e')\<close>\<close>

definition Replace_rule :: "parser" where
  "Replace_rule = lits ''replace''"

text \<open>Rule 71: \<^verbatim>\<open>On <- ('o' 'n' req_ws Name)\<close>\<close>

definition On_rule :: "parser" where
  "On_rule = seq [lits ''on'', req_ws, Name_rule]"

text \<open>Rule 96: \<^verbatim>\<open>TagComponent <- (([a-z] / [A-Z] / '_') ([a-z] / [A-Z] / [0-9] / '_')*)\<close>\<close>

definition TagComponent :: "parser" where
  "TagComponent = seq [alt [cls CHR ''a'' CHR ''z'', cls CHR ''A'' CHR ''Z'', chr CHR ''_''],
                       star (alt [cls CHR ''a'' CHR ''z'',
                                  cls CHR ''A'' CHR ''Z'',
                                  cls CHR ''0'' CHR ''9'',
                                  chr CHR ''_''])]"

text \<open>Rule 95: \<^verbatim>\<open>Tag <- (TagComponent (('.' / ':') TagComponent)*)\<close>\<close>

definition Tag :: "parser" where
  "Tag = seq [TagComponent, star (seq [alt [chr CHR ''.'', chr CHR '':''], TagComponent])]"

text \<open>Rule 94: \<^verbatim>\<open>TagPrefix <- ((('d' 'o' 'c' ('.' / ':') '-'? [0-9]+) / Tag) (':' ':'))\<close>\<close>

definition TagPrefix :: "parser" where
  "TagPrefix = seq [alt [seq [lits ''doc'',
                              alt [chr CHR ''.'', chr CHR '':''],
                              opt (chr CHR ''-''),
                              plus1 (cls CHR ''0'' CHR ''9'')],
                         Tag],
                    seq [chr CHR '':'', chr CHR '':'']]"

text \<open>Rule 93: \<^verbatim>\<open>Reference <- (((TagPrefix ('.' / Key)) / ('.'? Key)) FollowUpRef)\<close>\<close>

definition Reference :: "parser" where
  "Reference = seq [alt [seq [TagPrefix, alt [chr CHR ''.'', Key_rule]],
                         seq [opt (chr CHR ''.''), Key_rule]],
                    FollowUpRef]"

text \<open>Rule 67: \<^verbatim>\<open>RefMerge <- ('m' 'e' 'r' 'g' 'e' !(req_ws Required) (req_ws (Replace / On))? req_ws Reference)\<close>\<close>

definition RefMerge :: "parser" where
  "RefMerge = seq [lits ''merge'',
                   notp (seq [req_ws, Required]),
                   opt (seq [req_ws, alt [Replace_rule, On_rule]]),
                   req_ws,
                   Reference]"

text \<open>Rule 68: \<^verbatim>\<open>SimpleMerge <- ('m' 'e' 'r' 'g' 'e' !'(' (req_ws (Replace / Required / On))?)\<close>\<close>

definition SimpleMerge :: "parser" where
  "SimpleMerge = seq [lits ''merge'',
                      notp (chr CHR ''(''),
                      opt (seq [req_ws, alt [Replace_rule, Required, On_rule]])]"

text \<open>Rule 66: \<^verbatim>\<open>Merge <- (RefMerge / SimpleMerge)\<close>\<close>

definition Merge :: "parser" where
  "Merge = alt [RefMerge, SimpleMerge]"

text \<open>Rule 72: \<^verbatim>\<open>Auto <- ('a' 'u' 't' 'o')\<close>\<close>

definition Auto :: "parser" where
  "Auto = lits ''auto''"

text \<open>Rule 84: \<^verbatim>\<open>LambdaRef <- (req_ws Expression)\<close>\<close>

definition LambdaRef :: "(pegRule \<Rightarrow> parser) \<Rightarrow> parser" where
  "LambdaRef R = seq [req_ws, R ruleExpression]"

text \<open>Rule 106: \<^verbatim>\<open>Action2 <- {}\<close>\<close>

definition Action2 :: "parser" where
  "Action2 = action"

text \<open>Rule 87: \<^verbatim>\<open>StartParams <- Action2\<close>\<close>

definition StartParams :: "parser" where
  "StartParams = Action2"

text \<open>Rule 89: \<^verbatim>\<open>NextName <- (ws Name ws)\<close>\<close>

definition NextName :: "parser" where
  "NextName = seq [ws, Name_rule, ws]"

text \<open>Rule 91: \<^verbatim>\<open>DefaultValue <- ('=' Expression)\<close>\<close>

definition DefaultValue :: "(pegRule \<Rightarrow> parser) \<Rightarrow> parser" where
  "DefaultValue R = seq [chr CHR ''='', R ruleExpression]"

text \<open>Rule 92: \<^verbatim>\<open>VarParams <- ('.' '.' '.' ws)\<close>\<close>

definition VarParams :: "parser" where
  "VarParams = seq [chr CHR ''.'', chr CHR ''.'', chr CHR ''.'', ws]"

text \<open>Rule 88: \<^verbatim>\<open>Names <- (NextName (',' NextName)* DefaultValue? (',' NextName DefaultValue)* VarParams?)\<close>\<close>

definition Names :: "(pegRule \<Rightarrow> parser) \<Rightarrow> parser" where
  "Names R = seq [NextName,
                star (seq [chr CHR '','', NextName]),
                opt (DefaultValue R),
                star (seq [chr CHR '','', NextName, DefaultValue R]),
                opt VarParams]"

text \<open>Rule 86: \<^verbatim>\<open>Params <- ('|' StartParams ws Names? '|')\<close>\<close>

definition Params :: "(pegRule \<Rightarrow> parser) \<Rightarrow> parser" where
  "Params R = seq [chr CHR ''|'', StartParams, ws, opt (Names R), chr CHR ''|'']"

text \<open>Rule 85: \<^verbatim>\<open>LambdaExpr <- (ws Params ws ('-' '>') Expression)\<close>\<close>

definition LambdaExpr :: "(pegRule \<Rightarrow> parser) \<Rightarrow> parser" where
  "LambdaExpr R = seq [ws, Params R, ws, seq [chr CHR ''-'', chr CHR ''>''], R ruleExpression]"

text \<open>Rule 83: \<^verbatim>\<open>Lambda <- ('l' 'a' 'm' 'b' 'd' 'a' (LambdaRef / LambdaExpr))\<close>\<close>

definition Lambda :: "(pegRule \<Rightarrow> parser) \<Rightarrow> parser" where
  "Lambda R = seq [lits ''lambda'', alt [LambdaRef R, LambdaExpr R]]"

text \<open>Rule 76: \<^verbatim>\<open>LambdaOrExpr <- (LambdaExpr / ('|' Expression))\<close>\<close>

definition LambdaOrExpr :: "(pegRule \<Rightarrow> parser) \<Rightarrow> parser" where
  "LambdaOrExpr R = alt [LambdaExpr R, seq [chr CHR ''|'', R ruleExpression]]"

text \<open>Rule 78: \<^verbatim>\<open>MapMapping <- ('m' 'a' 'p' '{' Level7 LambdaOrExpr '}')\<close>\<close>

definition MapMapping :: "(pegRule \<Rightarrow> parser) \<Rightarrow> parser" where
  "MapMapping R = seq [lits ''map'', chr CHR ''{'', R ruleLevel7, LambdaOrExpr R, chr CHR ''}'']"

text \<open>Rule 75: \<^verbatim>\<open>LambdaExt <- (',' Expression)\<close>\<close>

definition LambdaExt :: "(pegRule \<Rightarrow> parser) \<Rightarrow> parser" where
  "LambdaExt R = seq [chr CHR '','', R ruleExpression]"

text \<open>Rule 105: \<^verbatim>\<open>Action1 <- {}\<close>\<close>

definition Action1 :: "parser" where
  "Action1 = action"

text \<open>Rule 73: \<^verbatim>\<open>Default <- Action1\<close>\<close>

definition Default_rule :: "parser" where
  "Default_rule = Action1"

text \<open>Rule 74: \<^verbatim>\<open>Sync <- ('s' 'y' 'n' 'c' '[' Level7 ((((LambdaExpr LambdaExt) / (LambdaOrExpr LambdaOrExpr)) (('|' Expression) / Default)) / (LambdaOrExpr Default Default)) ']')\<close>\<close>

definition Sync :: "(pegRule \<Rightarrow> parser) \<Rightarrow> parser" where
  "Sync R = seq [lits ''sync'',
               chr CHR ''['',
               R ruleLevel7,
               alt [seq [alt [seq [LambdaExpr R, LambdaExt R], seq [LambdaOrExpr R, LambdaOrExpr R]],
                         alt [seq [chr CHR ''|'', R ruleExpression], Default_rule]],
                    seq [LambdaOrExpr R, Default_rule, Default_rule]],
               chr CHR '']'']"

text \<open>Rule 77: \<^verbatim>\<open>Catch <- ('c' 'a' 't' 'c' 'h' '[' Level7 LambdaOrExpr ']')\<close>\<close>

definition Catch :: "(pegRule \<Rightarrow> parser) \<Rightarrow> parser" where
  "Catch R = seq [lits ''catch'', chr CHR ''['', R ruleLevel7, LambdaOrExpr R, chr CHR '']'']"

text \<open>Rule 79: \<^verbatim>\<open>Mapping <- ('m' 'a' 'p' '[' Level7 LambdaOrExpr ']')\<close>\<close>

definition Mapping_rule :: "(pegRule \<Rightarrow> parser) \<Rightarrow> parser" where
  "Mapping_rule R = seq [lits ''map'', chr CHR ''['', R ruleLevel7, LambdaOrExpr R, chr CHR '']'']"

text \<open>Rule 80: \<^verbatim>\<open>MapSelection <- ('s' 'e' 'l' 'e' 'c' 't' '{' Level7 LambdaOrExpr '}')\<close>\<close>

definition MapSelection :: "(pegRule \<Rightarrow> parser) \<Rightarrow> parser" where
  "MapSelection R = seq [lits ''select'', chr CHR ''{'', R ruleLevel7, LambdaOrExpr R, chr CHR ''}'']"

text \<open>Rule 81: \<^verbatim>\<open>Selection <- ('s' 'e' 'l' 'e' 'c' 't' '[' Level7 LambdaOrExpr ']')\<close>\<close>

definition Selection :: "(pegRule \<Rightarrow> parser) \<Rightarrow> parser" where
  "Selection R = seq [lits ''select'', chr CHR ''['', R ruleLevel7, LambdaOrExpr R, chr CHR '']'']"

text \<open>Rule 82: \<^verbatim>\<open>Sum <- ('s' 'u' 'm' '[' Level7 '|' Level7 LambdaOrExpr ']')\<close>\<close>

definition Sum_rule :: "(pegRule \<Rightarrow> parser) \<Rightarrow> parser" where
  "Sum_rule R = seq [lits ''sum'',
                   chr CHR ''['',
                   R ruleLevel7,
                   chr CHR ''|'',
                   R ruleLevel7,
                   LambdaOrExpr R,
                   chr CHR '']'']"

text \<open>Rule 61: \<^verbatim>\<open>StartList <- ('[' ws)\<close>\<close>

definition StartList :: "parser" where
  "StartList = seq [chr CHR ''['', ws]"

text \<open>Rule 43: \<^verbatim>\<open>ExpressionList <- (NextExpression (',' NextExpression)*)\<close>\<close>

definition ExpressionList :: "(pegRule \<Rightarrow> parser) \<Rightarrow> parser" where
  "ExpressionList R = seq [NextExpression R, star (seq [chr CHR '','', NextExpression R])]"

text \<open>Rule 60: \<^verbatim>\<open>List <- (StartList ExpressionList? ']')\<close>\<close>

definition List_rule :: "(pegRule \<Rightarrow> parser) \<Rightarrow> parser" where
  "List_rule R = seq [StartList, opt (ExpressionList R), chr CHR '']'']"

text \<open>Rule 63: \<^verbatim>\<open>CreateMap <- '{'\<close>\<close>

definition CreateMap :: "parser" where
  "CreateMap = chr CHR ''{''"

text \<open>Rule 65: \<^verbatim>\<open>Assignment <- (Expression '=' Expression)\<close>\<close>

definition Assignment :: "(pegRule \<Rightarrow> parser) \<Rightarrow> parser" where
  "Assignment R = seq [R ruleExpression, chr CHR ''='', R ruleExpression]"

text \<open>Rule 64: \<^verbatim>\<open>Assignments <- (Assignment (',' Assignment)*)\<close>\<close>

definition Assignments :: "(pegRule \<Rightarrow> parser) \<Rightarrow> parser" where
  "Assignments R = seq [Assignment R, star (seq [chr CHR '','', Assignment R])]"

text \<open>Rule 62: \<^verbatim>\<open>Map <- (CreateMap ws Assignments? '}')\<close>\<close>

definition Map_rule :: "(pegRule \<Rightarrow> parser) \<Rightarrow> parser" where
  "Map_rule R = seq [CreateMap, ws, opt (Assignments R), chr CHR ''}'']"

text \<open>Rule 50: \<^verbatim>\<open>Grouped <- ('(' Expression ')')\<close>\<close>

definition Grouped :: "(pegRule \<Rightarrow> parser) \<Rightarrow> parser" where
  "Grouped R = seq [chr CHR ''('', R ruleExpression, chr CHR '')'']"

text \<open>Rule 36: \<^verbatim>\<open>TopIndex <- ('.' '[' Expression ']')\<close>\<close>

definition TopIndex :: "(pegRule \<Rightarrow> parser) \<Rightarrow> parser" where
  "TopIndex R = seq [chr CHR ''.'', chr CHR ''['', R ruleExpression, chr CHR '']'']"

text \<open>Rule 32: \<^verbatim>\<open>Chained <- ((MapMapping / Sync / Catch / Mapping / MapSelection / Selection / Sum / List / Map / Range / Grouped / Reference / TopIndex) ChainedQualifiedExpression*)\<close>\<close>

definition Chained :: "(pegRule \<Rightarrow> parser) \<Rightarrow> parser" where
  "Chained R = seq [alt [MapMapping R,
                       Sync R,
                       Catch R,
                       Mapping_rule R,
                       MapSelection R,
                       Selection R,
                       Sum_rule R,
                       List_rule R,
                       Map_rule R,
                       Range_rule R,
                       Grouped R,
                       Reference,
                       TopIndex R],
                  star (ChainedQualifiedExpression R)]"

text \<open>Rule 31: \<^verbatim>\<open>Level0 <- (IP / String / Number / Boolean / Undefined / Nil / Symbol / Not / Substitution / Merge / Auto / Lambda / Chained)\<close>\<close>

definition Level0 :: "(pegRule \<Rightarrow> parser) \<Rightarrow> parser" where
  "Level0 R = alt [IP,
                 String_rule,
                 Number,
                 Boolean,
                 Undefined_rule,
                 Nil_rule,
                 Symbol,
                 Not_rule R,
                 Substitution R,
                 Merge,
                 Auto,
                 Lambda R,
                 Chained R]"

subsection \<open>The rules above Level0\<close>

text \<open>Rule 28: \<^verbatim>\<open>Multiplication <- ('*' req_ws Level0)\<close>\<close>

definition Multiplication :: "(pegRule \<Rightarrow> parser) \<Rightarrow> parser" where
  "Multiplication R = seq [chr CHR ''*'', req_ws, Level0 R]"

text \<open>Rule 29: \<^verbatim>\<open>Division <- ('/' req_ws Level0)\<close>\<close>

definition Division :: "(pegRule \<Rightarrow> parser) \<Rightarrow> parser" where
  "Division R = seq [chr CHR ''/'', req_ws, Level0 R]"

text \<open>Rule 30: \<^verbatim>\<open>Modulo <- ('%' req_ws Level0)\<close>\<close>

definition Modulo :: "(pegRule \<Rightarrow> parser) \<Rightarrow> parser" where
  "Modulo R = seq [chr CHR ''%'', req_ws, Level0 R]"

text \<open>Rule 27: \<^verbatim>\<open>Level1 <- (Level0 (req_ws (Multiplication / Division / Modulo))*)\<close>\<close>

definition Level1 :: "(pegRule \<Rightarrow> parser) \<Rightarrow> parser" where
  "Level1 R = seq [Level0 R, star (seq [req_ws, alt [Multiplication R, Division R, Modulo R]])]"

text \<open>Rule 25: \<^verbatim>\<open>Addition <- ('+' req_ws Level1)\<close>\<close>

definition Addition :: "(pegRule \<Rightarrow> parser) \<Rightarrow> parser" where
  "Addition R = seq [chr CHR ''+'', req_ws, Level1 R]"

text \<open>Rule 26: \<^verbatim>\<open>Subtraction <- ('-' req_ws Level1)\<close>\<close>

definition Subtraction :: "(pegRule \<Rightarrow> parser) \<Rightarrow> parser" where
  "Subtraction R = seq [chr CHR ''-'', req_ws, Level1 R]"

text \<open>Rule 24: \<^verbatim>\<open>Level2 <- (Level1 (req_ws (Addition / Subtraction))*)\<close>\<close>

definition Level2 :: "(pegRule \<Rightarrow> parser) \<Rightarrow> parser" where
  "Level2 R = seq [Level1 R, star (seq [req_ws, alt [Addition R, Subtraction R]])]"

text \<open>Rule 23: \<^verbatim>\<open>CompareOp <- (('=' '=') / ('!' '=') / ('<' '=') / ('>' '=') / '>' / '<' / '>')\<close>\<close>

definition CompareOp :: "parser" where
  "CompareOp = alt [seq [chr CHR ''='', chr CHR ''=''],
                    seq [chr CHR ''!'', chr CHR ''=''],
                    seq [chr CHR ''<'', chr CHR ''=''],
                    seq [chr CHR ''>'', chr CHR ''=''],
                    chr CHR ''>'',
                    chr CHR ''<'',
                    chr CHR ''>'']"

text \<open>Rule 22: \<^verbatim>\<open>Comparison <- (CompareOp req_ws Level2)\<close>\<close>

definition Comparison :: "(pegRule \<Rightarrow> parser) \<Rightarrow> parser" where
  "Comparison R = seq [CompareOp, req_ws, Level2 R]"

text \<open>Rule 21: \<^verbatim>\<open>Level3 <- (Level2 (req_ws Comparison)*)\<close>\<close>

definition Level3 :: "(pegRule \<Rightarrow> parser) \<Rightarrow> parser" where
  "Level3 R = seq [Level2 R, star (seq [req_ws, Comparison R])]"

text \<open>Rule 19: \<^verbatim>\<open>LogOr <- ('-' 'o' 'r' req_ws Level3)\<close>\<close>

definition LogOr :: "(pegRule \<Rightarrow> parser) \<Rightarrow> parser" where
  "LogOr R = seq [chr CHR ''-'', lits ''or'', req_ws, Level3 R]"

text \<open>Rule 20: \<^verbatim>\<open>LogAnd <- ('-' 'a' 'n' 'd' req_ws Level3)\<close>\<close>

definition LogAnd :: "(pegRule \<Rightarrow> parser) \<Rightarrow> parser" where
  "LogAnd R = seq [chr CHR ''-'', lits ''and'', req_ws, Level3 R]"

text \<open>Rule 18: \<^verbatim>\<open>Level4 <- (Level3 (req_ws (LogOr / LogAnd))*)\<close>\<close>

definition Level4 :: "(pegRule \<Rightarrow> parser) \<Rightarrow> parser" where
  "Level4 R = seq [Level3 R, star (seq [req_ws, alt [LogOr R, LogAnd R]])]"

text \<open>Rule 17: \<^verbatim>\<open>Concatenation <- (req_ws Level4)\<close>\<close>

definition Concatenation :: "(pegRule \<Rightarrow> parser) \<Rightarrow> parser" where
  "Concatenation R = seq [req_ws, Level4 R]"

text \<open>Rule 16: \<^verbatim>\<open>Level5 <- (Level4 Concatenation*)\<close>\<close>

definition Level5 :: "(pegRule \<Rightarrow> parser) \<Rightarrow> parser" where
  "Level5 R = seq [Level4 R, star (Concatenation R)]"

text \<open>Rule 15: \<^verbatim>\<open>Conditional <- (Level5 ws '?' Expression ':' Expression)\<close>\<close>

definition Conditional :: "(pegRule \<Rightarrow> parser) \<Rightarrow> parser" where
  "Conditional R = seq [Level5 R,
                      ws,
                      chr CHR ''?'',
                      R ruleExpression,
                      chr CHR '':'',
                      R ruleExpression]"

text \<open>Rule 14: \<^verbatim>\<open>Level6 <- (Conditional / Level5)\<close>\<close>

definition Level6 :: "(pegRule \<Rightarrow> parser) \<Rightarrow> parser" where
  "Level6 R = alt [Conditional R, Level5 R]"

text \<open>Rule 13: \<^verbatim>\<open>OrOp <- (('|' '|') / ('/' '/'))\<close>\<close>

definition OrOp :: "parser" where
  "OrOp = alt [seq [chr CHR ''|'', chr CHR ''|''], seq [chr CHR ''/'', chr CHR ''/'']]"

text \<open>Rule 12: \<^verbatim>\<open>Or <- (OrOp req_ws Level6)\<close>\<close>

definition Or_rule :: "(pegRule \<Rightarrow> parser) \<Rightarrow> parser" where
  "Or_rule R = seq [OrOp, req_ws, Level6 R]"

text \<open>Rule 11: \<^verbatim>\<open>Level7 <- (ws Level6 (req_ws Or)*)\<close>\<close>

definition Level7 :: "(pegRule \<Rightarrow> parser) \<Rightarrow> parser" where
  "Level7 R = seq [ws, Level6 R, star (seq [req_ws, Or_rule R])]"

text \<open>Rule 10: \<^verbatim>\<open>CreateScope <- '('\<close>\<close>

definition CreateScope :: "parser" where
  "CreateScope = chr CHR ''(''"

text \<open>Rule 9: \<^verbatim>\<open>Scope <- (CreateScope ws Assignments? ')')\<close>\<close>

definition Scope :: "(pegRule \<Rightarrow> parser) \<Rightarrow> parser" where
  "Scope R = seq [CreateScope, ws, opt (Assignments R), chr CHR '')'']"

text \<open>Rule 8: \<^verbatim>\<open>Scoped <- (ws Scope ws Expression)\<close>\<close>

definition Scoped :: "(pegRule \<Rightarrow> parser) \<Rightarrow> parser" where
  "Scoped R = seq [ws, Scope R, ws, R ruleExpression]"

text \<open>Rule 7: \<^verbatim>\<open>Expression <- ((Scoped / LambdaExpr / Level7) ws)\<close>\<close>

definition Expression :: "(pegRule \<Rightarrow> parser) \<Rightarrow> parser" where
  "Expression R = seq [alt [Scoped R, LambdaExpr R, Level7 R], ws]"

text \<open>Rule 1: \<^verbatim>\<open>Prefer <- (ws ('p' 'r' 'e' 'f' 'e' 'r') req_ws Expression)\<close>\<close>

definition Prefer :: "(pegRule \<Rightarrow> parser) \<Rightarrow> parser" where
  "Prefer R = seq [ws, lits ''prefer'', req_ws, Expression R]"

text \<open>Rule 5: \<^verbatim>\<open>TagMarker <- ('t' 'a' 'g' ':' '*'? Tag)\<close>\<close>

definition TagMarker :: "parser" where
  "TagMarker = seq [lits ''tag'', chr CHR '':'', opt (chr CHR ''*''), Tag]"

text \<open>Rule 4: \<^verbatim>\<open>Marker <- ('&' (('t' 'e' 'm' 'p' 'l' 'a' 't' 'e') / ('t' 'e' 'm' 'p' 'o' 'r' 'a' 'r' 'y') / ('l' 'o' 'c' 'a' 'l') / ('i' 'n' 'j' 'e' 'c' 't') / ('s' 't' 'a' 't' 'e') / ('d' 'e' 'f' 'a' 'u' 'l' 't') / ('d' 'y' 'n' 'a' 'm' 'i' 'c') / TagMarker))\<close>\<close>

definition Marker :: "parser" where
  "Marker = seq [chr CHR ''&'',
                 alt [lits ''template'',
                      lits ''temporary'',
                      lits ''local'',
                      lits ''inject'',
                      lits ''state'',
                      lits ''default'',
                      lits ''dynamic'',
                      TagMarker]]"

text \<open>Rule 3: \<^verbatim>\<open>SubsequentMarker <- Marker\<close>\<close>

definition SubsequentMarker :: "parser" where
  "SubsequentMarker = Marker"

text \<open>Rule 6: \<^verbatim>\<open>MarkerExpression <- Grouped\<close>\<close>

definition MarkerExpression :: "(pegRule \<Rightarrow> parser) \<Rightarrow> parser" where
  "MarkerExpression R = Grouped R"

text \<open>Rule 2: \<^verbatim>\<open>MarkedExpression <- (ws Marker (req_ws SubsequentMarker)* ws MarkerExpression? ws)\<close>\<close>

definition MarkedExpression :: "(pegRule \<Rightarrow> parser) \<Rightarrow> parser" where
  "MarkedExpression R = seq [ws,
                           Marker,
                           star (seq [req_ws, SubsequentMarker]),
                           ws,
                           opt (MarkerExpression R),
                           ws]"

text \<open>Rule 0: \<^verbatim>\<open>Dynaml <- ((Prefer / MarkedExpression / Expression) !.)\<close>\<close>

definition Dynaml :: "(pegRule \<Rightarrow> parser) \<Rightarrow> parser" where
  "Dynaml R = seq [alt [Prefer R, MarkedExpression R, Expression R], notp dot]"

subsection \<open>The table of rules\<close>

text \<open>
  The table \<open>_rules\<close> holds the rule functions themselves, each of which calls through
  the table again. \<open>rules n\<close> is that table with the calls through it followed \<open>n\<close> deep:
  an entry of \<open>rules (Suc n)\<close> is the rule's function over \<open>rules n\<close>, and no entry of
  \<open>rules 0\<close> matches.
\<close>

fun rules :: "nat \<Rightarrow> pegRule \<Rightarrow> parser" where
  "rules 0 r = (\<lambda>buf. None)"
| "rules (Suc n) ruleExpression = Expression (rules n)"
| "rules (Suc n) ruleLevel7 = Level7 (rules n)"
| "rules (Suc n) ruleLevel0 = Level0 (rules n)"
| "rules (Suc n) ruleChainedQualifiedExpression = ChainedQualifiedExpression (rules n)"

subsection \<open>Character classes and single-rune matching, for stating properties\<close>

text \<open>
  The character classes of the grammar as predicates, and the parser that matches one
  rune of a class; the rules built from classes are related to them in the proofs.
\<close>

definition one :: "(rune \<Rightarrow> bool) \<Rightarrow> parser" where
  "one P buf = (case buf of [] \<Rightarrow> None | x # r \<Rightarrow> if P x then Some r else None)"

definition is_space :: "rune \<Rightarrow> bool" where
  "is_space c \<longleftrightarrow> c = rune CHR '' '' \<or> c = rune CHR 0x09 \<or> c = rune CHR 0x0A \<or> c = rune CHR 0x0D"

definition is_name_char :: "rune \<Rightarrow> bool" where
  "is_name_char c \<longleftrightarrow> is_letter c \<or> is_digit c \<or> c = rune CHR ''_''"

definition is_key_char :: "rune \<Rightarrow> bool" where
  "is_key_char c \<longleftrightarrow> is_name_char c \<or> c = rune CHR ''-''"

definition is_tag_start :: "rune \<Rightarrow> bool" where
  "is_tag_start c \<longleftrightarrow> is_letter c \<or> c = rune CHR ''_''"

text \<open>What the optional minus sign of \<open>Index\<close> and \<open>TagPrefix\<close> leaves of the input.\<close>

definition skip_sign :: "rune list \<Rightarrow> rune list" where
  "skip_sign r = (case r of [] \<Rightarrow> [] | c # r' \<Rightarrow> if c = rune CHR ''-'' then r' else c # r')"

subsection \<open>String literals, for stating properties\<close>

text \<open>
  The interiors of string literals the specification speaks of: sequences of the escapes
  \<^verbatim>\<open>\"\<close>, \<^verbatim>\<open>\\\<close>, \<^verbatim>\<open>\n\<close>, \<^verbatim>\<open>\t\<close> and of runes that are neither a quote nor a backslash.
\<close>

definition quote :: rune where
  "quote = rune (CHR 0x22)"

definition backslash :: rune where
  "backslash = rune (CHR 0x5C)"

fun plain_interior :: "rune list \<Rightarrow> bool" where
  "plain_interior [] = True"
| "plain_interior [x] = (x \<noteq> quote \<and> x \<noteq> backslash)"
| "plain_interior (x # y # r) =
     (if x = backslash then
        (y = quote \<or> y = backslash \<or> y = rune CHR ''n'' \<or> y = rune CHR ''t'') \<and> plain_interior r
      else x \<noteq> quote \<and> plain_interior (y # r))"

text \<open>
  What the rule \<open>String\<close> looks at: whether every quote of the interior directly follows
  a backslash. \<open>prev\<close> is the rune before the runes still to be read; before the first
  rune of an interior it is the opening quote.
\<close>

fun quotes_escaped_from :: "rune \<Rightarrow> rune list \<Rightarrow> bool" where
  "quotes_escaped_from prev [] = True"
| "quotes_escaped_from prev (x # xs) = ((x = quote \<longrightarrow> prev = backslash) \<and> quotes_escaped_from x xs)"

definition quotes_escaped :: "rune list \<Rightarrow> bool" where
  "quotes_escaped interior \<longleftrightarrow> quotes_escaped_from quote interior"

text \<open>The loop of the rule \<open>String\<close> between the two quotes.\<close>

definition string_body :: parser where
  "string_body = star (alt [seq [chr CHR 0x5C, chr CHR 0x22], seq [notp (chr CHR 0x22), dot]])"

subsection \<open>The forms of references, for stating properties\<close>

text \<open>
  A decimal numeral is one or more digits, a sign is nothing or a minus. A tag component
  is a letter or underscore followed by letters, digits and underscores; a tag is a
  component followed by any number of further components, each after a dot or a colon.
\<close>

definition is_numeral :: "rune list \<Rightarrow> bool" where
  "is_numeral ds \<longleftrightarrow> ds \<noteq> [] \<and> (\<forall>d \<in> set ds. is_digit d)"

definition is_sign :: "rune list \<Rightarrow> bool" where
  "is_sign s \<longleftrightarrow> s = [] \<or> s = [rune CHR ''-'']"

definition is_tag_sep :: "rune \<Rightarrow> bool" where
  "is_tag_sep c \<longleftrightarrow> c = rune CHR ''.'' \<or> c = rune CHR '':''"

definition is_tag_component :: "rune list \<Rightarrow> bool" where
  "is_tag_component c \<longleftrightarrow> c \<noteq> [] \<and> is_tag_start (hd c) \<and> (\<forall>x \<in> set (tl c). is_name_char x)"

fun tag_tail :: "(rune \<times> rune list) list \<Rightarrow> rune list" where
  "tag_tail [] = []"
| "tag_tail ((s, c) # scs) = s # c @ tag_tail scs"

definition is_tag_tail :: "(rune \<times> rune list) list \<Rightarrow> bool" where
  "is_tag_tail scs \<longleftrightarrow> (\<forall>(s, c) \<in> set scs. is_tag_sep s \<and> is_tag_component c)"

text \<open>The first alternative of \<open>TagPrefix\<close>, the document index, as a parser of its own.\<close>

definition doc_index :: parser where
  "doc_index = seq [lits ''doc'', alt [chr CHR ''.'', chr CHR '':''], opt (chr CHR ''-''),
                    plus1 (cls CHR ''0'' CHR ''9'')]"

section \<open>Properties of the spiff context\<close>

lemma and_not_and_self: "(m AND NOT a) AND a = (0 :: 64 word)"
  by (simp add: bit_eq_iff bit_simps)

lemma WithFileSystem_clears:
  "mode (WithFileSystem a s (Some f)) AND a = 0"
  by (simp add: WithFileSystem_def Reset_def Let_def and_not_and_self)

lemma WithMode_clears:
  "fs s \<noteq> None \<Longrightarrow> mode (WithMode a s m) AND a = 0"
  by (simp add: WithMode_def Reset_def Let_def and_not_and_self)

lemma reachable_invariant:
  "reachable a d s \<Longrightarrow> fs s \<noteq> None \<Longrightarrow> mode s AND a = 0"
proof (induction rule: reachable.induct)
  case (r_New k i)
  then show ?case by (simp add: New_def)
next
  case (r_WithMode s m)
  then show ?case by (simp add: WithMode_def Reset_def Let_def and_not_and_self)
next
  case (r_WithFileSystem s f)
  then show ?case
    by (cases f) (simp_all add: WithFileSystem_def Reset_def Let_def and_not_and_self)
next
  case (r_WithValues s vals san s')
  then show ?case
    by (auto simp: WithValues_def Reset_def split: option.splits)
next
  case (r_SetTag s name t s')
  then show ?case
    by (auto simp: SetTag_def Reset_def split: option.splits)
qed (auto simp: Reset_def WithInterpolation_def WithEncryptionKey_def WithFunctions_def
       CleanupTags_def assureBinding_def split: if_splits)

text \<open>
  Claim C8. Once a file system is configured the OS-access capability stays off:
  \<open>WithFileSystem\<close> with a file system that is not nil clears \<open>MODE_OS_ACCESS\<close> from the
  mode, \<open>WithMode\<close> on a context whose file system is not nil clears it from the new
  mode, and no reachable context has a file system and the \<open>MODE_OS_ACCESS\<close> bit at once.
\<close>

theorem os_access_stays_off:
  "(f \<noteq> None \<longrightarrow> os_access_off a (WithFileSystem a s f)) \<and>
   (fs s \<noteq> None \<longrightarrow> os_access_off a (WithMode a s m)) \<and>
   (reachable a d s' \<longrightarrow> fs s' \<noteq> None \<longrightarrow> os_access_off a s')"
  unfolding os_access_off_def
  using WithFileSystem_clears [of a s] WithMode_clears [of s a m] reachable_invariant [of a d s']
  by auto

theorem os_access_stays_off_witness:
  "(Some () \<noteq> None) \<and>
   os_access_off 1 (WithFileSystem 1 (New [] 3 False :: (unit, unit, unit, unit, unit) spiff) (Some ())) \<and>
   fs (WithFileSystem 1 (New [] 3 False :: (unit, unit, unit, unit, unit) spiff) (Some ())) \<noteq> None \<and>
   os_access_off 1 (WithMode 1 (WithFileSystem 1 (New [] 3 False :: (unit, unit, unit, unit, unit) spiff) (Some ())) 3) \<and>
   reachable 1 3 (WithMode 1 (WithFileSystem 1 (New [] 3 False :: (unit, unit, unit, unit, unit) spiff) (Some ())) 3) \<and>
   fs (WithMode 1 (WithFileSystem 1 (New [] 3 False :: (unit, unit, unit, unit, unit) spiff) (Some ())) 3) \<noteq> None"
proof -
  let ?n = "New [] 3 False :: (unit, unit, unit, unit, unit) spiff"
  let ?s = "WithFileSystem 1 ?n (Some ())"
  let ?t = "WithMode 1 ?s 3"
  have r: "reachable 1 3 ?t"
    by (intro r_WithMode r_WithFileSystem r_New)
  have f1: "fs ?s \<noteq> None"
    by (simp add: WithFileSystem_def Reset_def Let_def)
  have f2: "fs ?t \<noteq> None"
    by (simp add: WithMode_def WithFileSystem_def Reset_def Let_def)
  from os_access_stays_off [of "Some ()" 1 ?n 3 3 ?t]
    os_access_stays_off [of "Some ()" 1 ?s 3 3 ?t] r f1 f2
  show ?thesis by simp
qed

section \<open>Properties of the evaluation helpers\<close>

text \<open>
  Claim C3. \<open>ResolveExpressionOrPushEvaluation\<close> returns \<open>ok = false\<close> only when
  \<open>Evaluate\<close> does (and then it does); when \<open>Evaluate\<close> succeeds with a value that is
  itself an expression (a deferred result), the helper returns \<open>ok = true\<close> with a nil
  value and sets the resolved flag to false.
\<close>

theorem resolve_ok_only_on_failure:
  assumes "Evaluate e bdg locally = (val, infoe, ok)"
  shows "res_ok (ResolveExpressionOrPushEvaluation Evaluate kw e resolved info bdg locally) = ok \<and>
         (ok \<and> val = Expr v \<longrightarrow>
            res_ok (ResolveExpressionOrPushEvaluation Evaluate kw e resolved info bdg locally) \<and>
            res_value (ResolveExpressionOrPushEvaluation Evaluate kw e resolved info bdg locally) = Nil \<and>
            \<not> res_resolved (ResolveExpressionOrPushEvaluation Evaluate kw e resolved info bdg locally))"
  using assms
  by (cases val) (simp_all add: ResolveExpressionOrPushEvaluation_def Let_def)

theorem resolve_ok_only_on_failure_witness:
  "(\<lambda>e (b :: unit) (l :: bool). (Expr e :: (nat, unit) goval, DefaultInfo :: unit EvaluationInfo, True)) 7 () False
     = (Expr 7, DefaultInfo, True) \<and>
   res_ok (ResolveExpressionOrPushEvaluation
      (\<lambda>e (b :: unit) (l :: bool). (Expr e :: (nat, unit) goval, DefaultInfo :: unit EvaluationInfo, True))
      (\<lambda>v e. v) 7 True None () False) \<and>
   res_value (ResolveExpressionOrPushEvaluation
      (\<lambda>e (b :: unit) (l :: bool). (Expr e :: (nat, unit) goval, DefaultInfo :: unit EvaluationInfo, True))
      (\<lambda>v e. v) 7 True None () False) = Nil \<and>
   \<not> res_resolved (ResolveExpressionOrPushEvaluation
      (\<lambda>e (b :: unit) (l :: bool). (Expr e :: (nat, unit) goval, DefaultInfo :: unit EvaluationInfo, True))
      (\<lambda>v e. v) 7 True None () False)"
proof -
  let ?ev = "\<lambda>e (b :: unit) (l :: bool). (Expr e :: (nat, unit) goval, DefaultInfo :: unit EvaluationInfo, True)"
  have h: "?ev 7 () False = (Expr 7, DefaultInfo, True)" by simp
  from resolve_ok_only_on_failure [of ?ev 7 "()" False "Expr 7" DefaultInfo True "\<lambda>v e. v" True None 7, OF h]
  show ?thesis by simp
qed

section \<open>Properties of CheckTagName\<close>

lemma tag_components_ne: "tag_components xs \<noteq> []"
  by (induction xs) auto


lemma colon_not_alnum [simp]: "\<not> is_letter (rune CHR '':'')" "\<not> is_digit (rune CHR '':'')"
  by (simp_all add: is_letter_def is_digit_def rune_def)

lemma a_letter [simp]: "is_letter (rune CHR ''a'')" "\<not> is_digit (rune CHR ''a'')" "rune CHR ''a'' \<noteq> rune CHR '':''"
  by (simp_all add: is_letter_def is_digit_def rune_def)

lemma set_butlast_Cons: "set (butlast (x # t)) = (if t = [] then {} else insert x (set (butlast t)))"
  by simp

lemma rej_nil: "\<not> tag_name_rejected []" "\<not> tag_name_rejected [rune CHR ''a'']"
  by (simp_all add: tag_name_rejected_def)

lemma rej_colon: "tag_name_rejected (rune CHR '':'' # cs)"
  by (simp add: tag_name_rejected_def tag_components_ne)

lemma rej_cons:
  "c \<noteq> rune CHR '':'' \<Longrightarrow>
   tag_name_rejected (c # cs) \<longleftrightarrow>
     is_digit c \<or> (\<not> is_letter c \<and> \<not> is_digit c) \<or> tag_name_rejected (rune CHR ''a'' # cs)"
  by (cases "tag_components cs") (auto simp: tag_name_rejected_def tag_components_ne)


lemma rej_a_colon:
  "tag_name_rejected (rune CHR ''a'' # rune CHR '':'' # cs) \<longleftrightarrow> tag_name_rejected cs"
  by (simp add: tag_name_rejected_def tag_components_ne)

lemma rej_a_cons:
  "c \<noteq> rune CHR '':'' \<Longrightarrow>
   tag_name_rejected (rune CHR ''a'' # c # cs) \<longleftrightarrow>
     (\<not> is_letter c \<and> \<not> is_digit c) \<or> tag_name_rejected (rune CHR ''a'' # cs)"
  by (cases "tag_components cs") (simp_all add: tag_name_rejected_def tag_components_ne, blast)
lemma loop_step:
  "c \<noteq> rune CHR '':'' \<Longrightarrow>
   CheckTagName_loop l (c # cs) =
     (if is_digit c then (if l = 0 then Some StartsWithDigit else CheckTagName_loop (Suc l) cs)
      else if is_letter c then CheckTagName_loop (Suc l) cs
      else Some (InvalidCharacter c))"
  by (simp add: is_digit_def is_letter_def Let_def)

lemma loop_colon:
  "CheckTagName_loop l (rune CHR '':'' # cs) =
     (if l = 0 then Some EmptyComponent else CheckTagName_loop 0 cs)"
  by simp

lemma digit_not_letter: "is_digit c \<Longrightarrow> \<not> is_letter c"
  by (auto simp: is_digit_def is_letter_def rune_def)

lemma loop_char_colon:
  assumes "\<And>l. CheckTagName_loop l cs = None \<longleftrightarrow>
     \<not> tag_name_rejected ((if l = 0 then [] else [rune CHR ''a'']) @ cs)"
  shows "CheckTagName_loop l (rune CHR '':'' # cs) = None \<longleftrightarrow>
     \<not> tag_name_rejected ((if l = 0 then [] else [rune CHR ''a'']) @ rune CHR '':'' # cs)"
proof (cases "l = 0")
  case True
  then show ?thesis by (simp add: rej_colon)
next
  case False
  then have "CheckTagName_loop l (rune CHR '':'' # cs) = CheckTagName_loop 0 cs" by simp
  also have "\<dots> = None \<longleftrightarrow> \<not> tag_name_rejected cs" using assms [of 0] by simp
  finally show ?thesis using False by (simp add: rej_a_colon)
qed

lemma loop_char_other:
  assumes ih: "\<And>l. CheckTagName_loop l cs = None \<longleftrightarrow>
     \<not> tag_name_rejected ((if l = 0 then [] else [rune CHR ''a'']) @ cs)"
    and c: "c \<noteq> rune CHR '':''"
  shows "CheckTagName_loop l (c # cs) = None \<longleftrightarrow>
     \<not> tag_name_rejected ((if l = 0 then [] else [rune CHR ''a'']) @ c # cs)"
proof -
  note step = loop_step [OF c, of l cs]
  have next_state: "CheckTagName_loop (Suc l) cs = None \<longleftrightarrow> \<not> tag_name_rejected (rune CHR ''a'' # cs)"
    using ih [of "Suc l"] by simp
  show ?thesis
  proof (cases "l = 0")
    case True
    then show ?thesis
      unfolding step using next_state digit_not_letter [of c] by (simp add: rej_cons [OF c])
  next
    case False
    then show ?thesis
      unfolding step using next_state digit_not_letter [of c] by (simp add: rej_a_cons [OF c])
  qed
qed

lemma loop_char:
  "CheckTagName_loop l cs = None \<longleftrightarrow>
     \<not> tag_name_rejected ((if l = 0 then [] else [rune CHR ''a'']) @ cs)"
proof (induction cs arbitrary: l)
  case Nil
  then show ?case by (simp add: rej_nil)
next
  case (Cons c cs)
  show ?case
  proof (cases "c = rune CHR '':''")
    case True
    show ?thesis unfolding True by (rule loop_char_colon) (rule Cons.IH)
  next
    case False
    show ?thesis by (rule loop_char_other [OF _ False]) (rule Cons.IH)
  qed
qed

lemma tag_components_snoc_colon:
  "tag_components (name @ [rune CHR '':'']) = tag_components name @ [[]]"
  by (induction name) (auto simp: tag_components_ne)

lemma last_tag_components:
  "last (tag_components name) = [] \<longleftrightarrow> name = [] \<or> last name = rune CHR '':''"
proof (induction name)
  case Nil
  then show ?case by simp
next
  case (Cons c cs)
  then show ?case
    by (cases "tag_components cs"; cases cs) (auto simp: tag_components_ne split: if_splits)
qed

lemma trailing_colon:
  assumes "\<not> tag_name_rejected name" "name \<noteq> []" "last name \<noteq> rune CHR '':''"
  shows "\<not> tag_name_rejected (name @ [rune CHR '':''])"
proof -
  have l: "last (tag_components name) \<noteq> []"
    using assms last_tag_components [of name] by simp
  have s: "set (tag_components name) = insert (last (tag_components name)) (set (butlast (tag_components name)))"
    using tag_components_ne [of name]
    by (metis append_butlast_last_id list.simps(15) rotate1.simps(2) set_rotate1)
  show ?thesis
    using assms(1) l s unfolding tag_name_rejected_def tag_components_snoc_colon
    by auto
qed

text \<open>
  Claim C9. \<open>CheckTagName\<close> returns an error exactly for the rejected names: those with
  a colon after an empty component, with a component that starts with a digit, or with a
  rune other than the colon that is not an ASCII letter or digit. The empty name is
  accepted, a colon at the end of an accepted name that does not already end in a colon
  is accepted, and a name with an underscore is rejected.
\<close>

theorem CheckTagName_char:
  "(CheckTagName name \<noteq> None \<longleftrightarrow> tag_name_rejected name) \<and>
   CheckTagName [] = None \<and>
   (CheckTagName name = None \<and> name \<noteq> [] \<and> last name \<noteq> rune CHR '':'' \<longrightarrow>
      CheckTagName (name @ [rune CHR '':'']) = None) \<and>
   (rune CHR ''_'' \<in> set name \<longrightarrow> CheckTagName name \<noteq> None)"
proof -
  have 0: "\<And>n. CheckTagName n \<noteq> None \<longleftrightarrow> tag_name_rejected n"
    using loop_char [of 0] by (simp add: CheckTagName_def)
  have 2: "CheckTagName [] = None" by (simp add: CheckTagName_def)
  have u: "rune CHR ''_'' \<noteq> rune CHR '':'' \<and> \<not> is_letter (rune CHR ''_'') \<and> \<not> is_digit (rune CHR ''_'')"
    by (simp add: is_letter_def is_digit_def rune_def)
  have 3: "rune CHR ''_'' \<in> set name \<longrightarrow> tag_name_rejected name"
    unfolding tag_name_rejected_def using u by blast
  have 4: "CheckTagName name = None \<and> name \<noteq> [] \<and> last name \<noteq> rune CHR '':'' \<longrightarrow>
      CheckTagName (name @ [rune CHR '':'']) = None"
    using 0 [of name] 0 [of "name @ [rune CHR '':'']"] trailing_colon [of name] by blast
  from 0 [of name] 2 3 4 show ?thesis by blast
qed

theorem CheckTagName_char_witness:
  "CheckTagName (map rune ''a:b2'') = None \<and> map rune ''a:b2'' \<noteq> [] \<and>
   last (map rune ''a:b2'') \<noteq> rune CHR '':'' \<and>
   CheckTagName (map rune ''a:b2'' @ [rune CHR '':'']) = None \<and>
   rune CHR ''_'' \<in> set (map rune ''a_b'') \<and> CheckTagName (map rune ''a_b'') \<noteq> None \<and>
   tag_name_rejected (map rune ''a_b'')"
proof -
  have a: "CheckTagName (map rune ''a:b2'') = None"
    by (simp add: CheckTagName_def rune_def)
  have b: "rune CHR ''_'' \<in> set (map rune ''a_b'')" by simp
  have c: "map rune ''a:b2'' \<noteq> [] \<and> last (map rune ''a:b2'') \<noteq> rune CHR '':''"
    by (simp add: rune_def)
  from CheckTagName_char [of "map rune ''a:b2''"] CheckTagName_char [of "map rune ''a_b''"] a b c
  show ?thesis by blast
qed

section \<open>Evaluation of a string literal\<close>

text \<open>
  Claim C5. The method \<open>Evaluate\<close> of \<open>StringExpr\<close>, run on the literal \<open>"bar"\<close> of
  dynamic_expression_test.go with any binding, returns the pair of the string and true:
  two results, without an evaluation info, where the interface \<open>Expression\<close> of
  expression.go declares three.
\<close>

theorem StringExpr_Evaluate_bar:
  "StringExpr_Evaluate \<lparr>Value = ''bar''\<rparr> bdg = (''bar'', True)"
  by (simp add: StringExpr_Evaluate_def)

section \<open>Properties of WireGuard keys\<close>

lemma distinct_encodeStd: "distinct encodeStd"
  by (simp add: encodeStd_def)

lemma length_encodeStd: "length encodeStd = 64"
  by (simp add: encodeStd_def)

lemma index_of_nth: "distinct xs \<Longrightarrow> n < length xs \<Longrightarrow> index_of xs (xs ! n) = Some n"
proof (induction xs arbitrary: n)
  case Nil
  then show ?case by simp
next
  case (Cons x xs)
  show ?case
  proof (cases n)
    case 0
    then show ?thesis by simp
  next
    case (Suc m)
    with Cons.prems have "xs ! m \<in> set xs" "x \<notin> set xs" by auto
    then have "x \<noteq> xs ! m" by auto
    with Cons Suc show ?thesis by simp
  qed
qed

lemma decode_encode_sextet: "decode_sextet (encode_sextet n) = Some (n mod 64)"
  unfolding decode_sextet_def encode_sextet_def
  by (rule index_of_nth [OF distinct_encodeStd]) (simp add: length_encodeStd)

lemma encode_sextet_in: "encode_sextet n \<in> set encodeStd"
  unfolding encode_sextet_def by (rule nth_mem) (simp add: length_encodeStd)

lemma encode_sextet_not_special:
  "encode_sextet n \<noteq> StdPadding" "encode_sextet n \<noteq> CHR 0x0D" "encode_sextet n \<noteq> CHR 0x0A"
proof -
  have "StdPadding \<notin> set encodeStd" "CHR 0x0D \<notin> set encodeStd" "CHR 0x0A \<notin> set encodeStd"
    by (simp_all add: encodeStd_def StdPadding_def)
  then show "encode_sextet n \<noteq> StdPadding" "encode_sextet n \<noteq> CHR 0x0D" "encode_sextet n \<noteq> CHR 0x0A"
    using encode_sextet_in [of n] by metis+
qed

lemma byte_of_nat: "n mod 256 = unat (w :: byte) \<Longrightarrow> of_nat n = w"
  by (simp add: word_unat_eq_iff unat_of_nat)

lemma unat_byte_lt: "unat (w :: byte) < 256"
  using unsigned_less [of w] by simp

lemma div_mod_split:
  fixes q r n :: nat
  assumes "r < n"
  shows "(q * n + r) div n = q" "(q * n + r) mod n = r"
  using assms by simp_all

lemma byte_parts:
  fixes w :: byte
  shows "unat w div 4 < 64" "unat w mod 4 * 16 + x div 16 mod 16 < 64"
    "unat w div 16 < 16" "unat w mod 16 * 4 + y mod 4 < 64" "unat w div 64 < 4"
  using unat_byte_lt [of w] by simp_all

lemmas sextet_simps = decode_encode_sextet mod_less div_mod_split byte_parts

lemma quantum3_encode:
  fixes a b c :: byte
  shows "quantum3 (encode_sextet (unat a div 4)) (encode_sextet (unat a mod 4 * 16 + unat b div 16))
           (encode_sextet (unat b mod 16 * 4 + unat c div 64)) (encode_sextet (unat c mod 64)) = Some [a, b, c]"
proof -
  have s1: "unat a mod 4 * 16 + unat b div 16 < 64" and s2: "unat b mod 16 * 4 + unat c div 64 < 64"
    using byte_parts(3) [of b] byte_parts(5) [of c] by simp_all
  have d: "decode_sextet (encode_sextet (unat a div 4)) = Some (unat a div 4)"
       "decode_sextet (encode_sextet (unat a mod 4 * 16 + unat b div 16)) = Some (unat a mod 4 * 16 + unat b div 16)"
       "decode_sextet (encode_sextet (unat b mod 16 * 4 + unat c div 64)) = Some (unat b mod 16 * 4 + unat c div 64)"
       "decode_sextet (encode_sextet (unat c mod 64)) = Some (unat c mod 64)"
    using s1 s2 byte_parts(1) [of a] by (simp_all add: decode_encode_sextet)
  have x: "(unat a mod 4 * 16 + unat b div 16) div 16 = unat a mod 4"
          "(unat a mod 4 * 16 + unat b div 16) mod 16 = unat b div 16"
          "(unat b mod 16 * 4 + unat c div 64) div 4 = unat b mod 16"
          "(unat b mod 16 * 4 + unat c div 64) mod 4 = unat c div 64"
    using byte_parts(3) [of b] byte_parts(5) [of c] by (simp_all add: div_mod_split)
  have e: "of_nat (unat a div 4 * 4 + unat a mod 4) = a" "of_nat (unat b div 16 * 16 + unat b mod 16) = b"
       "of_nat (unat c div 64 * 64 + unat c mod 64) = c"
    by (simp_all only: div_mult_mod_eq) simp_all
  show ?thesis
    by (simp only: quantum3_def d prod.case option.case x e)
qed

lemma quantum2_encode:
  fixes a b :: byte
  shows "quantum2 (encode_sextet (unat a div 4)) (encode_sextet (unat a mod 4 * 16 + unat b div 16))
           (encode_sextet (unat b mod 16 * 4)) = Some [a, b]"
proof -
  have s1: "unat a mod 4 * 16 + unat b div 16 < 64" and s2: "unat b mod 16 * 4 < 64"
    using byte_parts(3) [of b] by simp_all
  have d: "decode_sextet (encode_sextet (unat a div 4)) = Some (unat a div 4)"
       "decode_sextet (encode_sextet (unat a mod 4 * 16 + unat b div 16)) = Some (unat a mod 4 * 16 + unat b div 16)"
       "decode_sextet (encode_sextet (unat b mod 16 * 4)) = Some (unat b mod 16 * 4)"
    using s1 s2 byte_parts(1) [of a] by (simp_all add: decode_encode_sextet)
  have x: "(unat a mod 4 * 16 + unat b div 16) div 16 = unat a mod 4"
          "(unat a mod 4 * 16 + unat b div 16) mod 16 = unat b div 16"
          "unat b mod 16 * 4 div 4 = unat b mod 16"
    using byte_parts(3) [of b] by (simp_all add: div_mod_split)
  have e: "of_nat (unat a div 4 * 4 + unat a mod 4) = a" "of_nat (unat b div 16 * 16 + unat b mod 16) = b"
    by (simp_all only: div_mult_mod_eq) simp_all
  show ?thesis
    by (simp only: quantum2_def d prod.case option.case x e)
qed

lemma quantum1_encode:
  fixes a :: byte
  shows "quantum1 (encode_sextet (unat a div 4)) (encode_sextet (unat a mod 4 * 16)) = Some [a]"
proof -
  have d: "decode_sextet (encode_sextet (unat a div 4)) = Some (unat a div 4)"
       "decode_sextet (encode_sextet (unat a mod 4 * 16)) = Some (unat a mod 4 * 16)"
    using byte_parts(1) [of a] by (simp_all add: decode_encode_sextet)
  have x: "unat a mod 4 * 16 div 16 = unat a mod 4"
    by simp
  have e: "of_nat (unat a div 4 * 4 + unat a mod 4) = a"
    by (simp only: div_mult_mod_eq) simp
  show ?thesis
    by (simp only: quantum1_def d prod.case option.case x e)
qed

lemma decode_quanta_encode: "decode_quanta (EncodeToString bs) = Some bs"
proof (induction bs rule: EncodeToString.induct)
  case 1
  then show ?case by simp
next
  case (2 a)
  then show ?case by (simp add: quantum1_encode)
next
  case (3 a b)
  then show ?case by (simp add: quantum2_encode encode_sextet_not_special)
next
  case (4 a b c rest)
  show ?case
  proof (cases "EncodeToString rest")
    case Nil
    then show ?thesis using 4 by (simp add: quantum3_encode encode_sextet_not_special)
  next
    case (Cons e es)
    then show ?thesis using 4 by (simp add: quantum3_encode)
  qed
qed

lemma filter_encode:
  "filter (\<lambda>c. c \<noteq> CHR 0x0D \<and> c \<noteq> CHR 0x0A) (EncodeToString bs) = EncodeToString bs"
  by (induction bs rule: EncodeToString.induct) (simp_all add: encode_sextet_not_special StdPadding_def)

lemma DecodeString_EncodeToString: "DecodeString (EncodeToString bs) = Some bs"
  by (simp add: DecodeString_def filter_encode decode_quanta_encode)


text \<open>
  Claim C10. For every key \<open>k\<close>, \<open>ParseKey\<close> of the string of \<open>k\<close> succeeds and
  returns \<open>k\<close>.
\<close>

theorem ParseKey_String: "ParseKey (Key_String k) = Inr k"
proof -
  have "length (Rep_Key k) = KeyLen"
    using Rep_Key [of k] by simp
  then show ?thesis
    by (simp add: ParseKey_def Key_String_def DecodeString_EncodeToString NewKey_def Rep_Key_inverse)
qed

section \<open>Properties of the parser\<close>

subsection \<open>The building blocks\<close>

declare star.simps [simp del] seq.simps [simp del] alt.simps [simp del]

lemma rune_eq_iff [simp]: "rune a = rune b \<longleftrightarrow> a = b"
  by (simp add: rune_def)

lemma chr_simps [simp]:
  "chr c [] = None"
  "chr c (x # r) = (if x = rune c then Some r else None)"
  by (simp_all add: chr_def)

lemma cls_simps [simp]:
  "cls lo hi [] = None"
  "cls lo hi (x # r) = (if rune lo \<le> x \<and> x \<le> rune hi then Some r else None)"
  by (auto simp: cls_def)

lemma dot_simps [simp]: "dot [] = None" "dot (x # r) = Some r"
  by (simp_all add: dot_def)

lemma action_simp [simp]: "action buf = Some buf"
  by (simp add: action_def)

lemma one_simps [simp]:
  "one P [] = None"
  "one P (x # r) = (if P x then Some r else None)"
  by (simp_all add: one_def)

lemma seq_simps [simp]:
  "seq [] buf = Some buf"
  "seq (p # ps) buf = (case p buf of None \<Rightarrow> None | Some r \<Rightarrow> seq ps r)"
  by (simp_all add: seq.simps)

lemma alt_simps [simp]:
  "alt [] buf = None"
  "alt (p # ps) buf = (case p buf of None \<Rightarrow> alt ps buf | Some r \<Rightarrow> Some r)"
  by (simp_all add: alt.simps)

lemma lits_simps [simp]:
  "lits [] buf = Some buf"
  "lits (c # cs) buf = (case chr c buf of None \<Rightarrow> None | Some r \<Rightarrow> lits cs r)"
  by (simp_all add: lits_def split: option.splits)

lemma lits_prefix: "lits s (map rune s @ rest) = Some rest"
  by (induction s) simp_all

lemma chr_one: "chr c = one (\<lambda>x. x = rune c)"
  by (rule ext) (simp add: chr_def one_def split: list.splits)

lemma cls_one: "cls lo hi = one (\<lambda>x. rune lo \<le> x \<and> x \<le> rune hi)"
  by (rule ext) (auto simp: cls_def one_def split: list.splits)

lemma alt_one_Cons: "alt ps = one Q \<Longrightarrow> alt (one P # ps) = one (\<lambda>x. P x \<or> Q x)"
  by (rule ext) (auto simp: one_def split: list.splits option.splits)

lemma alt_one_single: "alt [one P] = one P"
  by (rule ext) (auto simp: one_def split: list.splits option.splits)

lemma star_one: "star (one P) buf = Some (dropWhile P buf)"
proof (induction buf)
  case Nil
  show ?case by (subst star.simps) simp
next
  case (Cons x r)
  then show ?case by (subst star.simps) simp
qed

lemma plus1_one:
  "plus1 (one P) buf = (case buf of [] \<Rightarrow> None | x # r \<Rightarrow> if P x then Some (dropWhile P r) else None)"
  by (cases buf) (simp_all add: plus1_def star_one)

lemma opt_simp: "opt p buf = (case p buf of None \<Rightarrow> Some buf | Some r \<Rightarrow> Some r)"
  by (simp add: opt_def)

lemma notp_simp: "notp p buf = (case p buf of None \<Rightarrow> Some buf | Some r \<Rightarrow> None)"
  by (simp add: notp_def)

lemma space_class:
  "alt [chr CHR '' '', chr CHR 0x09, chr CHR 0x0A, chr CHR 0x0D] = one is_space"
  unfolding chr_one
  by (rule ext) (auto simp: one_def is_space_def split: list.splits)

lemma ws_eq: "ws buf = Some (dropWhile is_space buf)"
  by (simp only: ws_def space_class star_one)

lemma req_ws_eq:
  "req_ws buf = (case buf of [] \<Rightarrow> None | x # r \<Rightarrow> if is_space x then Some (dropWhile is_space r) else None)"
  by (simp only: req_ws_def space_class plus1_one)

lemma name_class:
  "alt [cls CHR ''a'' CHR ''z'', cls CHR ''A'' CHR ''Z'', cls CHR ''0'' CHR ''9'', chr CHR ''_''] = one is_name_char"
  unfolding chr_one cls_one
  by (rule ext) (auto simp: one_def is_name_char_def is_letter_def is_digit_def split: list.splits)

lemma key_class:
  "alt [cls CHR ''a'' CHR ''z'', cls CHR ''A'' CHR ''Z'', cls CHR ''0'' CHR ''9'', chr CHR ''_'', chr CHR ''-'']
     = one is_key_char"
  unfolding chr_one cls_one
  by (rule ext) (auto simp: one_def is_key_char_def is_name_char_def is_letter_def is_digit_def split: list.splits)

lemma tag_start_class:
  "alt [cls CHR ''a'' CHR ''z'', cls CHR ''A'' CHR ''Z'', chr CHR ''_''] = one is_tag_start"
  unfolding chr_one cls_one
  by (rule ext) (auto simp: one_def is_tag_start_def is_letter_def split: list.splits)

lemma digit_class: "cls CHR ''0'' CHR ''9'' = one is_digit"
  unfolding cls_one by (rule ext) (auto simp: one_def is_digit_def split: list.splits)

subsection \<open>The lexical rules\<close>

lemmas class_defs = is_space_def is_name_char_def is_key_char_def is_tag_start_def is_letter_def is_digit_def

lemma Name_rule_eq:
  "Name_rule buf = (case buf of [] \<Rightarrow> None | x # r \<Rightarrow> if is_name_char x then Some (dropWhile is_name_char r) else None)"
  by (simp only: Name_rule_def name_class plus1_one)

lemma TagComponent_eq:
  "TagComponent buf =
     (case buf of [] \<Rightarrow> None | x # r \<Rightarrow> if is_tag_start x then Some (dropWhile is_name_char r) else None)"
  unfolding TagComponent_def tag_start_class name_class
  by (cases buf) (auto simp: star_one)

lemma digits_eq:
  "plus1 (cls CHR ''0'' CHR ''9'') buf =
     (case buf of [] \<Rightarrow> None | x # r \<Rightarrow> if is_digit x then Some (dropWhile is_digit r) else None)"
  by (simp only: digit_class plus1_one)

lemma opt_minus: "opt (chr CHR ''-'') r = Some (skip_sign r)"
  by (cases r) (simp_all add: opt_simp skip_sign_def)

lemma Index_rule_eq:
  "Index_rule buf =
     (case buf of [] \<Rightarrow> None
      | x # r \<Rightarrow>
          if x \<noteq> rune CHR ''['' then None
          else (case plus1 (cls CHR ''0'' CHR ''9'') (skip_sign r) of
                  None \<Rightarrow> None
                | Some r2 \<Rightarrow> chr CHR '']'' r2))"
  unfolding Index_rule_def
  by (cases buf) (simp_all add: opt_minus split: option.split)

lemma Key_rule_unfold:
  "Key_rule = seq [one is_name_char, star (one is_key_char),
                   opt (seq [chr CHR '':'', one is_name_char, star (one is_key_char)])]"
  unfolding Key_rule_def name_class key_class ..

lemma star_stop: "p buf = None \<Longrightarrow> star p buf = Some buf"
  by (subst star.simps) simp

lemma star_step: "p buf = Some r \<Longrightarrow> length r < length buf \<Longrightarrow> star p buf = star p r"
  by (subst star.simps) simp

lemma chr_map_rune:
  "chr c (map rune (d # s) @ rest) = (if d = c then Some (map rune s @ rest) else None)"
  by simp

lemma seq_single: "seq [p] buf = p buf"
  by (simp split: option.split)

subsection \<open>The rule String\<close>

lemma quote_ne_backslash [simp]: "quote \<noteq> backslash" "backslash \<noteq> quote"
  by (simp_all add: quote_def backslash_def)

lemma string_body_Nil: "string_body [] = Some []"
  unfolding string_body_def by (subst star.simps) (simp add: notp_simp)

lemma string_body_quote: "string_body (quote # r) = Some (quote # r)"
  unfolding string_body_def by (subst star.simps) (simp add: notp_simp quote_def)

lemma string_body_escaped: "string_body (backslash # quote # r) = string_body r"
  unfolding string_body_def by (subst star.simps) (simp add: notp_simp quote_def backslash_def)

lemma string_body_other:
  "x \<noteq> quote \<Longrightarrow> \<not> (x = backslash \<and> r \<noteq> [] \<and> hd r = quote) \<Longrightarrow> string_body (x # r) = string_body r"
  unfolding string_body_def by (subst star.simps, cases r) (auto simp: notp_simp quote_def backslash_def)

lemma String_rule_eq:
  "String_rule buf =
     (case buf of [] \<Rightarrow> None
      | x # r \<Rightarrow> if x \<noteq> quote then None
                 else (case string_body r of Some (y # r') \<Rightarrow> if y = quote then Some r' else None
                       | _ \<Rightarrow> None))"
  by (cases buf) (auto simp: String_rule_def string_body_def quote_def split: option.splits list.splits)


lemma string_body_interior:
  "quotes_escaped_from prev xs \<Longrightarrow> (xs \<noteq> [] \<longrightarrow> hd xs \<noteq> quote) \<Longrightarrow>
   (xs \<noteq> [] \<longrightarrow> last xs \<noteq> backslash) \<Longrightarrow>
   string_body (xs @ quote # rest) = Some (quote # rest)"
proof (induction xs arbitrary: prev rule: length_induct)
  case (1 xs)
  show ?case
  proof (cases xs)
    case Nil
    then show ?thesis by (simp add: string_body_quote)
  next
    case (Cons x r)
    with "1.prems" have x: "x \<noteq> quote" and qr: "quotes_escaped_from x r" by simp_all
    show ?thesis
    proof (cases "x = backslash \<and> r \<noteq> [] \<and> hd r = quote")
      case True
      then obtain r' where r: "r = quote # r'" by (cases r) auto
      from qr r have q': "quotes_escaped_from quote r'" by simp
      then have h: "r' \<noteq> [] \<longrightarrow> hd r' \<noteq> quote" by (cases r') auto
      from "1.prems"(3) Cons r have l: "r' \<noteq> [] \<longrightarrow> last r' \<noteq> backslash" by auto
      have "length r' < length xs" using Cons r by simp
      with "1.IH" q' h l have "string_body (r' @ quote # rest) = Some (quote # rest)" by blast
      with True Cons r show ?thesis by (simp add: string_body_escaped)
    next
      case False
      have nx: "\<not> (x = backslash \<and> r @ quote # rest \<noteq> [] \<and> hd (r @ quote # rest) = quote)"
      proof (cases r)
        case Nil
        with "1.prems"(3) Cons show ?thesis by simp
      next
        case (Cons y r')
        with False show ?thesis by simp
      qed
      have h: "r \<noteq> [] \<longrightarrow> hd r \<noteq> quote"
      proof (cases r)
        case Nil
        then show ?thesis by simp
      next
        case (Cons y r')
        with qr False show ?thesis by auto
      qed
      from "1.prems"(3) Cons have l: "r \<noteq> [] \<longrightarrow> last r \<noteq> backslash" by auto
      have "length r < length xs" using Cons by simp
      with "1.IH" qr h l have "string_body (r @ quote # rest) = Some (quote # rest)" by blast
      with Cons x nx show ?thesis by (simp add: string_body_other)
    qed
  qed
qed

lemma String_rule_accepts:
  assumes "quotes_escaped interior" "interior \<noteq> [] \<longrightarrow> last interior \<noteq> backslash"
  shows "String_rule (quote # interior @ quote # rest) = Some rest"
proof -
  have "interior \<noteq> [] \<longrightarrow> hd interior \<noteq> quote"
    using assms(1) by (cases interior) (auto simp: quotes_escaped_def)
  with assms have "string_body (interior @ quote # rest) = Some (quote # rest)"
    using string_body_interior [of quote interior rest] by (simp add: quotes_escaped_def)
  then show ?thesis by (simp add: String_rule_eq)
qed

lemma string_body_backslash_end:
  "quotes_escaped_from prev xs \<Longrightarrow> (xs \<noteq> [] \<longrightarrow> hd xs \<noteq> quote) \<Longrightarrow>
   string_body (xs @ [backslash, quote]) = Some []"
proof (induction xs arbitrary: prev rule: length_induct)
  case (1 xs)
  show ?case
  proof (cases xs)
    case Nil
    then show ?thesis by (simp add: string_body_escaped string_body_Nil)
  next
    case (Cons x r)
    with "1.prems" have x: "x \<noteq> quote" and qr: "quotes_escaped_from x r" by simp_all
    show ?thesis
    proof (cases "x = backslash \<and> r \<noteq> [] \<and> hd r = quote")
      case True
      then obtain r' where r: "r = quote # r'" by (cases r) auto
      from qr r have q': "quotes_escaped_from quote r'" by simp
      then have h: "r' \<noteq> [] \<longrightarrow> hd r' \<noteq> quote" by (cases r') auto
      have "length r' < length xs" using Cons r by simp
      with "1.IH" q' h have "string_body (r' @ [backslash, quote]) = Some []" by blast
      with True Cons r show ?thesis by (simp add: string_body_escaped)
    next
      case False
      have nx: "\<not> (x = backslash \<and> r @ [backslash, quote] \<noteq> [] \<and> hd (r @ [backslash, quote]) = quote)"
        using False by (cases r) simp_all
      have h: "r \<noteq> [] \<longrightarrow> hd r \<noteq> quote"
      proof (cases r)
        case Nil
        then show ?thesis by simp
      next
        case (Cons y r')
        with qr False show ?thesis by auto
      qed
      have "length r < length xs" using Cons by simp
      with "1.IH" qr h have "string_body (r @ [backslash, quote]) = Some []" by blast
      with Cons x nx show ?thesis by (simp add: string_body_other)
    qed
  qed
qed

lemma plain_interior_quotes_escaped: "plain_interior xs \<Longrightarrow> quotes_escaped_from prev xs"
proof (induction xs arbitrary: prev rule: plain_interior.induct)
  case 1
  then show ?case by simp
next
  case (2 x)
  then show ?case by simp
next
  case (3 x y r)
  then show ?case by (auto split: if_splits)
qed

lemma plain_interior_hd: "plain_interior xs \<Longrightarrow> xs \<noteq> [] \<Longrightarrow> hd xs \<noteq> quote"
  by (cases xs rule: plain_interior.cases) (auto split: if_splits)

lemma quotes_escaped_from_prefix:
  "quotes_escaped_from prev (ys @ zs) \<Longrightarrow> quotes_escaped_from prev ys"
  by (induction ys arbitrary: prev) simp_all

lemma String_rule_rejects:
  assumes p: "plain_interior interior" and n: "interior \<noteq> []" and l: "last interior = backslash"
  shows "String_rule (quote # interior @ [quote]) = None"
proof -
  define ys where "ys = butlast interior"
  have xs: "interior = ys @ [backslash]"
    using n l unfolding ys_def by (metis append_butlast_last_id)
  have "quotes_escaped_from quote interior"
    using p by (rule plain_interior_quotes_escaped)
  then have q: "quotes_escaped_from quote ys"
    unfolding xs by (rule quotes_escaped_from_prefix)
  then have h: "ys \<noteq> [] \<longrightarrow> hd ys \<noteq> quote"
    by (cases ys) auto
  have "string_body (ys @ [backslash, quote]) = Some []"
    using q h by (rule string_body_backslash_end)
  then show ?thesis
    by (simp add: String_rule_eq xs)
qed

lemma String_rule_accepts_plain:
  assumes "plain_interior interior" "interior \<noteq> [] \<longrightarrow> last interior \<noteq> backslash"
  shows "String_rule (quote # interior @ quote # rest) = Some rest"
  using assms String_rule_accepts [of interior rest] plain_interior_quotes_escaped [of interior quote]
  by (simp add: quotes_escaped_def)

text \<open>
  Claim C4, as amended. A string literal whose interior uses only the escapes
  \<^verbatim>\<open>\"\<close>, \<^verbatim>\<open>\\\<close>, \<^verbatim>\<open>\n\<close>, \<^verbatim>\<open>\t\<close> and runes that are neither a quote nor a backslash, and
  whose interior does not end in a backslash, is accepted by the rule \<open>String\<close>, which
  stops after the closing quote. When such an interior ends in a backslash (in the
  escape \<^verbatim>\<open>\\\<close>), the rule reads that backslash and the closing quote as \<^verbatim>\<open>\"\<close> and
  rejects the literal at the end of the input: only \<^verbatim>\<open>\"\<close> is an escape of the grammar.
\<close>

theorem String_rule_plain:
  "(plain_interior interior \<and> (interior \<noteq> [] \<longrightarrow> last interior \<noteq> backslash) \<longrightarrow>
      String_rule (quote # interior @ quote # rest) = Some rest) \<and>
   (plain_interior interior \<and> interior \<noteq> [] \<and> last interior = backslash \<longrightarrow>
      String_rule (quote # interior @ [quote]) = None)"
  using String_rule_accepts_plain [of interior rest] String_rule_rejects [of interior] by blast

theorem String_rule_plain_witness:
  "plain_interior (map rune [CHR ''a'', CHR 0x5C, CHR 0x22, CHR ''b'', CHR 0x5C, CHR ''n'']) \<and>
   String_rule (quote # map rune [CHR ''a'', CHR 0x5C, CHR 0x22, CHR ''b'', CHR 0x5C, CHR ''n'']
                 @ quote # map rune '' x'') = Some (map rune '' x'') \<and>
   plain_interior (map rune [CHR ''a'', CHR 0x5C, CHR 0x5C]) \<and>
   String_rule (quote # map rune [CHR ''a'', CHR 0x5C, CHR 0x5C] @ [quote]) = None"
proof -
  have 1: "plain_interior (map rune [CHR ''a'', CHR 0x5C, CHR 0x22, CHR ''b'', CHR 0x5C, CHR ''n''])"
    by (simp add: quote_def backslash_def)
  have 2: "last (map rune [CHR ''a'', CHR 0x5C, CHR 0x22, CHR ''b'', CHR 0x5C, CHR ''n'']) \<noteq> backslash"
    by (simp add: backslash_def)
  have 3: "plain_interior (map rune [CHR ''a'', CHR 0x5C, CHR 0x5C])"
    by (simp add: quote_def backslash_def)
  have 4: "last (map rune [CHR ''a'', CHR 0x5C, CHR 0x5C]) = backslash"
    by (simp add: backslash_def)
  have 5: "map rune [CHR ''a'', CHR 0x5C, CHR 0x5C] \<noteq> []"
    by simp
  from String_rule_plain [of "map rune [CHR ''a'', CHR 0x5C, CHR 0x22, CHR ''b'', CHR 0x5C, CHR ''n'']" "map rune '' x''"]
       String_rule_plain [of "map rune [CHR ''a'', CHR 0x5C, CHR 0x5C]" "[]"] 1 2 3 4 5
  show ?thesis by blast
qed

text \<open>
  The claim as stated fails for the literal \<^verbatim>\<open>"\\"\<close>, whose interior is the one escape
  \<^verbatim>\<open>\\\<close>: the rule \<open>String\<close> rejects it.
\<close>

theorem String_rule_escaped_backslash_counterexample:
  "plain_interior (map rune [CHR 0x5C, CHR 0x5C]) \<and>
   String_rule (map rune [CHR 0x22, CHR 0x5C, CHR 0x5C, CHR 0x22]) = None"
proof -
  have b: "string_body [backslash, backslash, quote] = Some []"
    by (simp add: string_body_other string_body_escaped string_body_Nil)
  have "String_rule [quote, backslash, backslash, quote] = None"
    by (simp add: String_rule_eq b)
  moreover have "plain_interior [backslash, backslash]"
    by simp
  ultimately show ?thesis
    by (simp add: quote_def backslash_def)
qed

subsection \<open>The keyword merge before a parenthesis\<close>

lemma merge_paren: "map rune ''merge('' @ rest = map rune ''merge'' @ rune CHR ''('' # rest"
  by simp

lemma SimpleMerge_call: "SimpleMerge (map rune ''merge('' @ rest) = None"
  unfolding SimpleMerge_def merge_paren
  by (simp add: lits_prefix notp_simp del: lits_simps map_eq_Cons_conv list.map)

lemma req_ws_paren: "req_ws (rune CHR ''('' # rest) = None"
  by (simp add: req_ws_eq is_space_def)

lemma RefMerge_call: "RefMerge (map rune ''merge('' @ rest) = None"
  unfolding RefMerge_def merge_paren
  by (simp add: lits_prefix notp_simp opt_simp req_ws_paren del: lits_simps list.map)

lemma Merge_call: "Merge (map rune ''merge('' @ rest) = None"
  by (simp add: Merge_def RefMerge_call SimpleMerge_call del: list.map)

lemma Key_merge: "Key_rule (map rune ''merge('' @ rest) = Some (rune CHR ''('' # rest)"
  unfolding Key_rule_unfold
  by (simp add: star_one opt_simp class_defs rune_def)

lemma TagComponent_merge: "TagComponent (map rune ''merge('' @ rest) = Some (rune CHR ''('' # rest)"
  by (simp add: TagComponent_eq class_defs rune_def)

lemma tag_sep_paren:
  "star (seq [alt [chr CHR ''.'', chr CHR '':''], TagComponent]) (rune CHR ''('' # rest) = Some (rune CHR ''('' # rest)"
  by (rule star_stop) simp

lemma Tag_merge: "Tag (map rune ''merge('' @ rest) = Some (rune CHR ''('' # rest)"
  unfolding Tag_def
  by (simp add: TagComponent_merge tag_sep_paren del: list.map)

lemma TagPrefix_merge: "TagPrefix (map rune ''merge('' @ rest) = None"
  unfolding TagPrefix_def
  by (simp add: Tag_merge chr_map_rune del: list.map)

lemma PathComponent_paren: "PathComponent (rune CHR ''('' # rest) = None"
  by (simp add: PathComponent_def opt_simp Index_rule_eq Key_rule_unfold)

lemma FollowUpRef_paren: "FollowUpRef (rune CHR ''('' # rest) = Some (rune CHR ''('' # rest)"
  unfolding FollowUpRef_def by (rule star_stop) (rule PathComponent_paren)

lemma Reference_merge: "Reference (map rune ''merge('' @ rest) = Some (rune CHR ''('' # rest)"
  unfolding Reference_def
  by (simp add: TagPrefix_merge Key_merge FollowUpRef_paren opt_simp chr_map_rune del: list.map)

lemma m_not_digit: "\<not> is_digit (rune CHR ''m'')"
  by (simp add: is_digit_def rune_def)

lemma cls_digit_m: "cls CHR ''0'' CHR ''9'' (rune CHR ''m'' # tl') = None"
  by (simp add: digit_class m_not_digit)

lemma IP_m: "IP (rune CHR ''m'' # tl') = None"
  by (simp add: IP_def digits_eq m_not_digit)

lemma String_m: "String_rule (rune CHR ''m'' # tl') = None"
  by (simp add: String_rule_def)

lemma Number_m: "Number (rune CHR ''m'' # tl') = None"
  by (simp add: Number_def opt_simp rune_def)

lemma Boolean_m: "Boolean (rune CHR ''m'' # tl') = None"
  by (simp add: Boolean_def)

lemma Undefined_m: "Undefined_rule (rune CHR ''m'' # tl') = None"
  by (simp add: Undefined_rule_def)

lemma Nil_m: "Nil_rule (rune CHR ''m'' # tl') = None"
  by (simp add: Nil_rule_def)

lemma Symbol_m: "Symbol (rune CHR ''m'' # tl') = None"
  by (simp add: Symbol_def)

lemma Not_m: "Not_rule R (rune CHR ''m'' # tl') = None"
  by (simp add: Not_rule_def)

lemma Substitution_m: "Substitution R (rune CHR ''m'' # tl') = None"
  by (simp add: Substitution_def)

lemma Auto_m: "Auto (rune CHR ''m'' # tl') = None"
  by (simp add: Auto_def)

lemma Lambda_m: "Lambda R (rune CHR ''m'' # tl') = None"
  by (simp add: Lambda_def)

lemmas Level0_m = IP_m String_m Number_m Boolean_m Undefined_m Nil_m Symbol_m Not_m Substitution_m Auto_m Lambda_m

lemma merge_call_Cons:
  "map rune ''merge('' @ rest = rune CHR ''m'' # rune CHR ''e'' # map rune ''rge('' @ rest"
  by simp

lemma Level0_merge_call: "Level0 R (map rune ''merge('' @ rest) = Chained R (map rune ''merge('' @ rest)"
proof -
  have m: "Merge (rune CHR ''m'' # rune CHR ''e'' # map rune ''rge('' @ rest) = None"
    using Merge_call [of rest] by (simp only: merge_call_Cons)
  show ?thesis
    unfolding Level0_def merge_call_Cons
    by (simp add: Level0_m m del: list.map split: option.split)
qed

lemma Chained_heads_me:
  "MapMapping R (rune CHR ''m'' # rune CHR ''e'' # tl') = None"
  "Sync R (rune CHR ''m'' # tl') = None"
  "Catch R (rune CHR ''m'' # tl') = None"
  "Mapping_rule R (rune CHR ''m'' # rune CHR ''e'' # tl') = None"
  "MapSelection R (rune CHR ''m'' # tl') = None"
  "Selection R (rune CHR ''m'' # tl') = None"
  "Sum_rule R (rune CHR ''m'' # tl') = None"
  "List_rule R (rune CHR ''m'' # tl') = None"
  "Map_rule R (rune CHR ''m'' # tl') = None"
  "Range_rule R (rune CHR ''m'' # tl') = None"
  "Grouped R (rune CHR ''m'' # tl') = None"
  by (simp_all add: MapMapping_def Sync_def Catch_def Mapping_rule_def MapSelection_def Selection_def
        Sum_rule_def List_rule_def StartList_def Map_rule_def CreateMap_def Range_rule_def StartRange_def
        Grouped_def)

lemma Chained_merge_call:
  "Chained R (map rune ''merge('' @ rest) = star (ChainedQualifiedExpression R) (rune CHR ''('' # rest)"
proof -
  have r: "Reference (rune CHR ''m'' # rune CHR ''e'' # map rune ''rge('' @ rest) = Some (rune CHR ''('' # rest)"
    using Reference_merge [of rest] by (simp only: merge_call_Cons)
  show ?thesis
    unfolding Chained_def merge_call_Cons
    by (simp add: Chained_heads_me r del: list.map split: option.split)
qed

lemma CQE_paren:
  "ChainedQualifiedExpression R (rune CHR ''('' # rest) = ChainedCall R (rune CHR ''('' # rest)"
proof -
  have "Currying R (rune CHR ''('' # rest) = None"
    by (simp add: Currying_def)
  moreover have "ChainedRef (rune CHR ''('' # rest) = None"
    by (simp add: ChainedRef_def PathComponent_paren)
  moreover have "ChainedDynRef R (rune CHR ''('' # rest) = None"
    by (simp add: ChainedDynRef_def opt_simp)
  moreover have "Projection R (rune CHR ''('' # rest) = None"
    by (simp add: Projection_def opt_simp Slice_def Range_rule_def StartRange_def)
  ultimately show ?thesis
    by (simp add: ChainedQualifiedExpression_def split: option.split)
qed

lemma ws_nospace: "r = [] \<or> \<not> is_space (hd r) \<Longrightarrow> ws r = Some r"
  by (cases r) (auto simp: ws_eq)

lemma req_ws_nospace: "r = [] \<or> \<not> is_space (hd r) \<Longrightarrow> req_ws r = None"
  by (cases r) (auto simp: req_ws_eq)

lemma star_req_ws_stop: "r = [] \<or> \<not> is_space (hd r) \<Longrightarrow> star (seq (req_ws # ps)) r = Some r"
  by (rule star_stop) (simp add: req_ws_nospace)

lemma Level1_of_Level0:
  "Level0 R buf = Some r \<Longrightarrow> r = [] \<or> \<not> is_space (hd r) \<Longrightarrow> Level1 R buf = Some r"
  by (simp add: Level1_def star_req_ws_stop)

lemma Level2_of_Level0:
  "Level0 R buf = Some r \<Longrightarrow> r = [] \<or> \<not> is_space (hd r) \<Longrightarrow> Level2 R buf = Some r"
  by (simp add: Level2_def Level1_of_Level0 star_req_ws_stop)

lemma Level3_of_Level0:
  "Level0 R buf = Some r \<Longrightarrow> r = [] \<or> \<not> is_space (hd r) \<Longrightarrow> Level3 R buf = Some r"
  by (simp add: Level3_def Level2_of_Level0 star_req_ws_stop)

lemma Level4_of_Level0:
  "Level0 R buf = Some r \<Longrightarrow> r = [] \<or> \<not> is_space (hd r) \<Longrightarrow> Level4 R buf = Some r"
  by (simp add: Level4_def Level3_of_Level0 star_req_ws_stop)

lemma Level5_of_Level0:
  "Level0 R buf = Some r \<Longrightarrow> r = [] \<or> \<not> is_space (hd r) \<Longrightarrow> Level5 R buf = Some r"
  by (simp add: Level5_def Concatenation_def Level4_of_Level0 star_req_ws_stop)

lemma Level6_of_Level0:
  "Level0 R buf = Some r \<Longrightarrow> r = [] \<or> \<not> is_space (hd r) \<Longrightarrow> chr CHR ''?'' r = None \<Longrightarrow>
   Level6 R buf = Some r"
  by (simp add: Level6_def Conditional_def Level5_of_Level0 ws_nospace)

lemma Level7_of_Level0:
  "Level0 R buf = Some r \<Longrightarrow> r = [] \<or> \<not> is_space (hd r) \<Longrightarrow> chr CHR ''?'' r = None \<Longrightarrow>
   buf = [] \<or> \<not> is_space (hd buf) \<Longrightarrow> Level7 R buf = Some r"
  by (simp add: Level7_def Level6_of_Level0 ws_nospace star_req_ws_stop)

lemma Expression_of_Level0:
  assumes "Level0 R (x # b) = Some r" "r = [] \<or> \<not> is_space (hd r)" "chr CHR ''?'' r = None"
    "\<not> is_space x" "x \<noteq> rune CHR ''(''" "x \<noteq> rune CHR ''|''"
  shows "Expression R (x # b) = Some r"
proof -
  have w: "ws (x # b) = Some (x # b)" using assms(4) by (simp add: ws_nospace)
  have "Scoped R (x # b) = None"
    using assms(5) by (simp add: Scoped_def w Scope_def CreateScope_def)
  moreover have "LambdaExpr R (x # b) = None"
    using assms(6) by (simp add: LambdaExpr_def w Params_def)
  moreover have "Level7 R (x # b) = Some r"
    using assms(1-4) by (simp add: Level7_of_Level0)
  ultimately show ?thesis
    using assms(2) by (simp add: Expression_def ws_nospace)
qed

lemma Dynaml_of_Expression:
  assumes "Expression R (x # b) = Some []" "\<not> is_space x" "x \<noteq> rune CHR ''p''" "x \<noteq> rune CHR ''&''"
  shows "Dynaml R (x # b) = Some []"
proof -
  have w: "ws (x # b) = Some (x # b)" using assms(2) by (simp add: ws_nospace)
  have "Prefer R (x # b) = None"
    using assms(3) by (simp add: Prefer_def w)
  moreover have "MarkedExpression R (x # b) = None"
    using assms(4) by (simp add: MarkedExpression_def w Marker_def)
  ultimately show ?thesis
    using assms(1) by (simp add: Dynaml_def notp_simp)
qed

lemma ChainedCall_eq:
  "ChainedCall R (rune CHR ''('' # args) =
     (case NameArgumentList R (dropWhile is_space args) of
        None \<Rightarrow> chr CHR '')'' (dropWhile is_space args)
      | Some r \<Rightarrow> chr CHR '')'' r)"
  by (simp add: ChainedCall_def StartArguments_def ws_eq opt_simp split: option.split)

lemma CQE_stop: "x \<noteq> rune CHR ''('' \<Longrightarrow> x \<noteq> rune CHR ''*'' \<Longrightarrow> x \<noteq> rune CHR ''.'' \<Longrightarrow>
   x \<noteq> rune CHR ''['' \<Longrightarrow> ChainedQualifiedExpression R (x # r) = None"
  by (simp add: ChainedQualifiedExpression_def ChainedCall_def StartArguments_def Currying_def ChainedRef_def
        PathComponent_def Index_rule_eq ChainedDynRef_def Projection_def Slice_def Range_rule_def StartRange_def
        opt_simp)

lemma CQE_Nil: "ChainedQualifiedExpression R [] = None"
  by (simp add: ChainedQualifiedExpression_def ChainedCall_def StartArguments_def Currying_def ChainedRef_def
        PathComponent_def Index_rule_eq ChainedDynRef_def Projection_def Slice_def Range_rule_def StartRange_def
        opt_simp)

lemma Level0_merge_call_Some:
  assumes "ChainedCall R (rune CHR ''('' # args) = Some r" "length r \<le> length args"
  shows "Level0 R (map rune ''merge('' @ args) = star (ChainedQualifiedExpression R) r"
proof -
  have "ChainedQualifiedExpression R (rune CHR ''('' # args) = Some r"
    using assms(1) by (simp add: CQE_paren)
  then have "star (ChainedQualifiedExpression R) (rune CHR ''('' # args) = star (ChainedQualifiedExpression R) r"
    using assms(2) by (intro star_step) simp_all
  then show ?thesis
    by (simp add: Level0_merge_call Chained_merge_call del: list.map)
qed

lemma Level0_merge_call_None:
  assumes "ChainedCall R (rune CHR ''('' # args) = None"
  shows "Level0 R (map rune ''merge('' @ args) = Some (rune CHR ''('' # args)"
proof -
  have "ChainedQualifiedExpression R (rune CHR ''('' # args) = None"
    using assms by (simp add: CQE_paren)
  then have "star (ChainedQualifiedExpression R) (rune CHR ''('' # args) = Some (rune CHR ''('' # args)"
    by (rule star_stop)
  then show ?thesis
    by (simp add: Level0_merge_call Chained_merge_call del: list.map)
qed

lemma paren_class [simp]:
  "\<not> is_space (rune CHR '')'')" "\<not> is_name_char (rune CHR '')'')" "\<not> is_key_char (rune CHR '')'')"
  "\<not> is_space (rune CHR ''a'')" "is_name_char (rune CHR ''a'')" "is_tag_start (rune CHR ''a'')"
  "\<not> is_digit (rune CHR ''a'')" "\<not> is_space (rune CHR ''m'')"
  by (simp_all add: class_defs rune_def)

lemma Reference_a: "Reference (rune CHR ''a'' # rune CHR '')'' # rest) = Some (rune CHR '')'' # rest)"
proof -
  have "star (seq [alt [chr CHR ''.'', chr CHR '':''], TagComponent]) (rune CHR '')'' # rest) = Some (rune CHR '')'' # rest)"
    by (rule star_stop) simp
  then have "TagPrefix (rune CHR ''a'' # rune CHR '')'' # rest) = None"
    by (simp add: TagPrefix_def Tag_def TagComponent_eq)
  moreover have "Key_rule (rune CHR ''a'' # rune CHR '')'' # rest) = Some (rune CHR '')'' # rest)"
    by (simp add: Key_rule_unfold star_one opt_simp)
  moreover have "FollowUpRef (rune CHR '')'' # rest) = Some (rune CHR '')'' # rest)"
    unfolding FollowUpRef_def by (rule star_stop) (simp add: PathComponent_def Index_rule_eq opt_simp)
  ultimately show ?thesis
    by (simp add: Reference_def opt_simp)
qed

lemma Level0_heads_a:
  "IP (rune CHR ''a'' # rune CHR '')'' # rest) = None"
  "String_rule (rune CHR ''a'' # rune CHR '')'' # rest) = None"
  "Number (rune CHR ''a'' # rune CHR '')'' # rest) = None"
  "Boolean (rune CHR ''a'' # rune CHR '')'' # rest) = None"
  "Undefined_rule (rune CHR ''a'' # rune CHR '')'' # rest) = None"
  "Nil_rule (rune CHR ''a'' # rune CHR '')'' # rest) = None"
  "Symbol (rune CHR ''a'' # rune CHR '')'' # rest) = None"
  "Not_rule R (rune CHR ''a'' # rune CHR '')'' # rest) = None"
  "Substitution R (rune CHR ''a'' # rune CHR '')'' # rest) = None"
  "Merge (rune CHR ''a'' # rune CHR '')'' # rest) = None"
  "Auto (rune CHR ''a'' # rune CHR '')'' # rest) = None"
  "Lambda R (rune CHR ''a'' # rune CHR '')'' # rest) = None"
  by (simp_all add: IP_def digits_eq String_rule_def Number_def opt_simp rune_def is_digit_def Boolean_def
        Undefined_rule_def Nil_rule_def Symbol_def Not_rule_def Substitution_def Merge_def RefMerge_def
        SimpleMerge_def Auto_def Lambda_def)

lemma Chained_heads_a:
  "MapMapping R (rune CHR ''a'' # tl') = None"
  "Sync R (rune CHR ''a'' # tl') = None"
  "Catch R (rune CHR ''a'' # tl') = None"
  "Mapping_rule R (rune CHR ''a'' # tl') = None"
  "MapSelection R (rune CHR ''a'' # tl') = None"
  "Selection R (rune CHR ''a'' # tl') = None"
  "Sum_rule R (rune CHR ''a'' # tl') = None"
  "List_rule R (rune CHR ''a'' # tl') = None"
  "Map_rule R (rune CHR ''a'' # tl') = None"
  "Range_rule R (rune CHR ''a'' # tl') = None"
  "Grouped R (rune CHR ''a'' # tl') = None"
  by (simp_all add: MapMapping_def Sync_def Catch_def Mapping_rule_def MapSelection_def Selection_def
        Sum_rule_def List_rule_def StartList_def Map_rule_def CreateMap_def Range_rule_def StartRange_def
        Grouped_def)

lemma Level0_a: "Level0 R (rune CHR ''a'' # rune CHR '')'' # rest) = Some (rune CHR '')'' # rest)"
proof -
  have st: "star (ChainedQualifiedExpression R) (rune CHR '')'' # rest) = Some (rune CHR '')'' # rest)"
    by (rule star_stop) (simp add: CQE_stop)
  have "Chained R (rune CHR ''a'' # rune CHR '')'' # rest) = Some (rune CHR '')'' # rest)"
    by (simp add: Chained_def Chained_heads_a Reference_a st)
  then show ?thesis
    by (simp add: Level0_def Level0_heads_a)
qed

lemma Expression_a: "Expression R (rune CHR ''a'' # rune CHR '')'' # rest) = Some (rune CHR '')'' # rest)"
  by (rule Expression_of_Level0 [OF Level0_a]) simp_all

lemma NameArgumentList_a:
  assumes "R ruleExpression (rune CHR ''a'' # rune CHR '')'' # rest) = Some (rune CHR '')'' # rest)"
  shows "NameArgumentList R (rune CHR ''a'' # rune CHR '')'' # rest) = Some (rune CHR '')'' # rest)"
proof -
  have "NextNameArgument R (rune CHR ''a'' # rune CHR '')'' # rest) = None"
    by (simp add: NextNameArgument_def ws_eq Name_rule_eq)
  moreover have "NextExpression R (rune CHR ''a'' # rune CHR '')'' # rest) = Some (rune CHR '')'' # rest)"
    using assms by (simp add: NextExpression_def opt_simp ListExpansion_def)
  moreover have "star (seq [chr CHR '','', NextExpression R]) (rune CHR '')'' # rest) = Some (rune CHR '')'' # rest)"
    by (rule star_stop) simp
  ultimately show ?thesis
    by (simp add: NameArgumentList_def)
qed

lemma ChainedCall_a:
  assumes "R ruleExpression (rune CHR ''a'' # rune CHR '')'' # rest) = Some (rune CHR '')'' # rest)"
  shows "ChainedCall R (rune CHR ''('' # rune CHR ''a'' # rune CHR '')'' # rest) = Some rest"
  using NameArgumentList_a [of R rest] assms by (simp add: ChainedCall_eq)

lemma rules_Expression_a:
  "rules (Suc n) ruleExpression (rune CHR ''a'' # rune CHR '')'' # rest) = Some (rune CHR '')'' # rest)"
  by (simp add: Expression_a)

lemma Level0_merge_a:
  assumes "R ruleExpression (map rune ''a)'') = Some (map rune '')'')"
  shows "Level0 R (map rune ''merge(a)'') = Some []"
proof -
  have c: "ChainedCall R (rune CHR ''('' # map rune ''a)'') = Some []"
    using ChainedCall_a [of R "[]"] assms by simp
  have "Level0 R (map rune ''merge('' @ map rune ''a)'') = star (ChainedQualifiedExpression R) []"
    by (rule Level0_merge_call_Some [OF c]) simp
  also have "\<dots> = Some []"
    by (rule star_stop) (rule CQE_Nil)
  finally show ?thesis by simp
qed

lemma Dynaml_merge_a:
  assumes "R ruleExpression (map rune ''a)'') = Some (map rune '')'')"
  shows "Dynaml R (map rune ''merge(a)'') = Some []"
proof -
  have l: "Level0 R (rune CHR ''m'' # map rune ''erge(a)'') = Some []"
    using Level0_merge_a [of R] assms by simp
  have "Expression R (rune CHR ''m'' # map rune ''erge(a)'') = Some []"
    by (rule Expression_of_Level0 [OF l]) (simp_all add: class_defs rune_def)
  then have "Dynaml R (rune CHR ''m'' # map rune ''erge(a)'') = Some []"
    by (rule Dynaml_of_Expression) (simp_all add: class_defs rune_def)
  then show ?thesis by simp
qed

lemma Dynaml_rules_merge_a: "Dynaml (rules (Suc n)) (map rune ''merge(a)'') = Some []"
  using Dynaml_merge_a [of "rules (Suc n)"] by (simp add: Expression_a)

lemma Level0_Nil: "Level0 R [] = None"
proof -
  have "Reference [] = None"
    by (simp add: Reference_def TagPrefix_def Tag_def TagComponent_eq opt_simp Key_rule_unfold)
  then have "Chained R [] = None"
    by (simp add: Chained_def MapMapping_def Sync_def Catch_def Mapping_rule_def MapSelection_def Selection_def
          Sum_rule_def List_rule_def StartList_def Map_rule_def CreateMap_def Range_rule_def StartRange_def
          Grouped_def TopIndex_def)
  then show ?thesis
    by (simp add: Level0_def IP_def digits_eq String_rule_def Number_def opt_simp Boolean_def
          Undefined_rule_def Nil_rule_def Symbol_def Not_rule_def Substitution_def Merge_def RefMerge_def
          SimpleMerge_def Auto_def Lambda_def)
qed

lemma Expression_Nil: "Expression R [] = None"
proof -
  have "Level5 R [] = None"
    by (simp add: Level5_def Level4_def Level3_def Level2_def Level1_def Level0_Nil)
  then have "Level7 R [] = None"
    by (simp add: Level7_def ws_eq Level6_def Conditional_def)
  then show ?thesis
    by (simp add: Expression_def Scoped_def ws_eq Scope_def CreateScope_def LambdaExpr_def Params_def)
qed

lemma ChainedCall_unclosed: "ChainedCall (rules (Suc n)) [rune CHR ''(''] = None"
proof -
  have "NameArgumentList (rules (Suc n)) [] = None"
    by (simp add: NameArgumentList_def NextNameArgument_def ws_eq Name_rule_eq NextExpression_def Expression_Nil)
  then show ?thesis
    by (simp add: ChainedCall_eq)
qed

text \<open>
  Claim C1. Where the input reads \<open>merge(\<close>, the rules \<open>SimpleMerge\<close> (by its negative
  lookahead), \<open>RefMerge\<close> and so \<open>Merge\<close> do not match, and no merge directive is
  produced; \<open>Level0\<close> falls through to \<open>Chained\<close>, which matches the reference
  \<open>merge\<close> and continues at the parenthesis, where the only qualified expression that
  can match is the call \<open>ChainedCall\<close>: the opening parenthesis, white space, an
  optional argument list and the closing parenthesis. When the call matches, \<open>Level0\<close>
  matches the reference and the call and goes on with what follows the call; when
  nothing can be chained there, it ends right after the call. When no call matches (the
  argument list is malformed or not closed), \<open>Level0\<close> matches the bare reference and
  leaves the parenthesis. This holds for every input after \<open>merge(\<close> and every table of
  the recursive rules (whose rules do not lengthen the input).
\<close>

theorem merge_call_is_no_merge_directive:
  "SimpleMerge (map rune ''merge('' @ args) = None \<and>
   RefMerge (map rune ''merge('' @ args) = None \<and>
   Merge (map rune ''merge('' @ args) = None \<and>
   Level0 R (map rune ''merge('' @ args) = Chained R (map rune ''merge('' @ args) \<and>
   Reference (map rune ''merge('' @ args) = Some (rune CHR ''('' # args) \<and>
   Chained R (map rune ''merge('' @ args) = star (ChainedQualifiedExpression R) (rune CHR ''('' # args) \<and>
   ChainedQualifiedExpression R (rune CHR ''('' # args) = ChainedCall R (rune CHR ''('' # args) \<and>
   ChainedCall R (rune CHR ''('' # args) =
     (case NameArgumentList R (dropWhile is_space args) of
        None \<Rightarrow> chr CHR '')'' (dropWhile is_space args)
      | Some r \<Rightarrow> chr CHR '')'' r) \<and>
   (\<forall>r. ChainedCall R (rune CHR ''('' # args) = Some r \<and> length r \<le> length args \<longrightarrow>
        Level0 R (map rune ''merge('' @ args) = star (ChainedQualifiedExpression R) r) \<and>
   (\<forall>r. ChainedCall R (rune CHR ''('' # args) = Some r \<and> length r \<le> length args \<and>
        ChainedQualifiedExpression R r = None \<longrightarrow>
        Level0 R (map rune ''merge('' @ args) = Some r) \<and>
   (ChainedCall R (rune CHR ''('' # args) = None \<longrightarrow>
        Level0 R (map rune ''merge('' @ args) = Some (rune CHR ''('' # args))"
proof -
  have 1: "\<forall>r. ChainedCall R (rune CHR ''('' # args) = Some r \<and> length r \<le> length args \<longrightarrow>
        Level0 R (map rune ''merge('' @ args) = star (ChainedQualifiedExpression R) r"
    using Level0_merge_call_Some [of R args] by blast
  have 2: "\<forall>r. ChainedCall R (rune CHR ''('' # args) = Some r \<and> length r \<le> length args \<and>
        ChainedQualifiedExpression R r = None \<longrightarrow>
        Level0 R (map rune ''merge('' @ args) = Some r"
  proof (intro allI impI)
    fix r
    assume a: "ChainedCall R (rune CHR ''('' # args) = Some r \<and> length r \<le> length args \<and>
        ChainedQualifiedExpression R r = None"
    then have "star (ChainedQualifiedExpression R) r = Some r"
      by (intro star_stop) simp
    with a Level0_merge_call_Some [of R args r] show "Level0 R (map rune ''merge('' @ args) = Some r"
      by simp
  qed
  show ?thesis
    using SimpleMerge_call [of args] RefMerge_call [of args] Merge_call [of args] Level0_merge_call [of R args]
      Reference_merge [of args] Chained_merge_call [of R args] CQE_paren [of R args] ChainedCall_eq [of R args]
      1 2 Level0_merge_call_None [of R args]
    by (intro conjI) blast+
qed

text \<open>
  The theorem at \<open>merge(a)\<close> and at the unclosed \<open>merge(\<close>, with the table of the
  grammar's own rules: the first is matched as a whole by \<open>Level0\<close> (and by the start
  rule \<open>Dynaml\<close>) as the reference \<open>merge\<close> with the call \<open>(a)\<close>; of the second only
  the reference is matched.
\<close>

theorem merge_call_is_no_merge_directive_witness:
  "ChainedCall (rules 1) (rune CHR ''('' # map rune ''a)'') = Some [] \<and>
   length ([] :: rune list) \<le> length (map rune ''a)'') \<and>
   ChainedQualifiedExpression (rules 1) [] = None \<and>
   Merge (map rune ''merge('' @ map rune ''a)'') = None \<and>
   Reference (map rune ''merge('' @ map rune ''a)'') = Some (rune CHR ''('' # map rune ''a)'') \<and>
   Level0 (rules 1) (map rune ''merge('' @ map rune ''a)'') = Some [] \<and>
   Dynaml (rules 1) (map rune ''merge(a)'') = Some [] \<and>
   ChainedCall (rules 1) (rune CHR ''('' # []) = None \<and>
   Level0 (rules 1) (map rune ''merge('' @ []) = Some [rune CHR ''('']"
proof -
  have c: "ChainedCall (rules 1) (rune CHR ''('' # map rune ''a)'') = Some []"
    using ChainedCall_a [of "rules (Suc 0)" "[]"] by (simp add: Expression_a)
  have l: "length ([] :: rune list) \<le> length (map rune ''a)'')"
    by simp
  have q: "ChainedQualifiedExpression (rules 1) [] = None"
    by (rule CQE_Nil)
  have u: "ChainedCall (rules 1) (rune CHR ''('' # []) = None"
    using ChainedCall_unclosed [of 0] by simp
  have d: "Dynaml (rules 1) (map rune ''merge(a)'') = Some []"
    using Dynaml_rules_merge_a [of 0] by simp
  from merge_call_is_no_merge_directive [of "map rune ''a)''" "rules 1"]
    merge_call_is_no_merge_directive [of "[]" "rules 1"] c l q u d
  show ?thesis by blast
qed

subsection \<open>References: tag prefixes, leading dot, indices\<close>


lemma dropWhile_digits_stop:
  "\<forall>d \<in> set ds. is_digit d \<Longrightarrow> \<not> is_digit x \<Longrightarrow> dropWhile is_digit (ds @ x # r) = x # r"
  by (induction ds) simp_all

lemma special_not_digit [simp]:
  "\<not> is_digit (rune CHR '']'')" "\<not> is_digit (rune CHR '':'')" "\<not> is_digit (rune CHR ''-'')"
  by (simp_all add: is_digit_def rune_def)

lemma skip_sign_numeral:
  "is_sign s \<Longrightarrow> is_numeral ds \<Longrightarrow> skip_sign (s @ ds @ r) = ds @ r"
  by (cases ds) (auto simp: is_sign_def is_numeral_def skip_sign_def)

lemma digits_numeral:
  "is_numeral ds \<Longrightarrow> \<not> is_digit x \<Longrightarrow> plus1 (cls CHR ''0'' CHR ''9'') (ds @ x # r) = Some (x # r)"
  by (cases ds) (simp_all add: digits_eq is_numeral_def dropWhile_digits_stop)

lemma Index_rule_accepts:
  "is_sign s \<Longrightarrow> is_numeral ds \<Longrightarrow> Index_rule (rune CHR ''['' # s @ ds @ rune CHR '']'' # rest) = Some rest"
  by (simp add: Index_rule_eq skip_sign_numeral digits_numeral)

lemma skip_sign_cases: "\<exists>s. is_sign s \<and> r = s @ skip_sign r"
  by (cases r) (auto simp: is_sign_def skip_sign_def)

lemma digits_Some:
  "plus1 (cls CHR ''0'' CHR ''9'') b = Some r \<Longrightarrow>
   \<exists>ds. is_numeral ds \<and> b = ds @ r \<and> (r = [] \<or> \<not> is_digit (hd r))"
proof -
  assume a: "plus1 (cls CHR ''0'' CHR ''9'') b = Some r"
  then obtain d b' where b: "b = d # b'" and d: "is_digit d" and r: "r = dropWhile is_digit b'"
    by (auto simp: digits_eq split: list.splits if_splits)
  have "is_numeral (d # takeWhile is_digit b')"
    using d by (auto simp: is_numeral_def dest: set_takeWhileD)
  moreover have "b = (d # takeWhile is_digit b') @ r"
    using b r by simp
  moreover have "r = [] \<or> \<not> is_digit (hd r)"
    unfolding r by (metis hd_dropWhile)
  ultimately show ?thesis by blast
qed

lemma Index_rule_Some:
  assumes "Index_rule buf = Some rest"
  shows "\<exists>s ds. is_sign s \<and> is_numeral ds \<and> buf = rune CHR ''['' # s @ ds @ rune CHR '']'' # rest"
proof -
  from assms obtain r r2 where buf: "buf = rune CHR ''['' # r"
    and dg: "plus1 (cls CHR ''0'' CHR ''9'') (skip_sign r) = Some r2" and cl: "chr CHR '']'' r2 = Some rest"
    by (auto simp: Index_rule_eq split: list.splits if_splits option.splits)
  from cl have r2: "r2 = rune CHR '']'' # rest"
    by (cases r2) (auto split: if_splits)
  from digits_Some [OF dg] obtain ds where ds: "is_numeral ds" "skip_sign r = ds @ r2" by blast
  from skip_sign_cases [of r] obtain s where s: "is_sign s" "r = s @ skip_sign r" by blast
  from buf s ds r2 have "buf = rune CHR ''['' # s @ ds @ rune CHR '']'' # rest" by simp
  with s ds show ?thesis by blast
qed

lemma Index_rule_iff:
  "Index_rule buf = Some rest \<longleftrightarrow>
     (\<exists>s ds. is_sign s \<and> is_numeral ds \<and> buf = rune CHR ''['' # s @ ds @ rune CHR '']'' # rest)"
  using Index_rule_Some Index_rule_accepts by blast

lemma TagPrefix_unfold: "TagPrefix = seq [alt [doc_index, Tag], seq [chr CHR '':'', chr CHR '':'']]"
  unfolding TagPrefix_def doc_index_def ..

lemma colons: "seq [chr CHR '':'', chr CHR '':''] (rune CHR '':'' # rune CHR '':'' # rest) = Some rest"
  by simp

lemma doc_index_accepts:
  assumes "is_tag_sep sep" "is_sign s" "is_numeral ds"
  shows "doc_index (map rune ''doc'' @ sep # s @ ds @ rune CHR '':'' # r) = Some (rune CHR '':'' # r)"
proof -
  have "alt [chr CHR ''.'', chr CHR '':''] (sep # s @ ds @ rune CHR '':'' # r) = Some (s @ ds @ rune CHR '':'' # r)"
    using assms(1) by (auto simp: is_tag_sep_def)
  then show ?thesis
    unfolding doc_index_def
    by (simp add: chr_map_rune opt_minus skip_sign_numeral [OF assms(2,3)] digits_numeral [OF assms(3)]
          del: list.map(2) alt_simps)
qed

lemma TagPrefix_doc:
  assumes "is_tag_sep sep" "is_sign s" "is_numeral ds"
  shows "TagPrefix (map rune ''doc'' @ sep # s @ ds @ map rune ''::'' @ rest) = Some rest"
proof -
  have e: "map rune ''doc'' @ sep # s @ ds @ map rune ''::'' @ rest
           = map rune ''doc'' @ sep # s @ ds @ rune CHR '':'' # rune CHR '':'' # rest"
    by simp
  show ?thesis
    unfolding TagPrefix_unfold e
    by (simp add: doc_index_accepts [OF assms] del: list.map)
qed

lemma tag_start_name_char: "is_tag_start x \<Longrightarrow> is_name_char x"
  by (auto simp: is_tag_start_def is_name_char_def)

lemma tag_sep_not_name_char: "is_tag_sep x \<Longrightarrow> \<not> is_name_char x"
  by (auto simp: is_tag_sep_def class_defs rune_def)

lemma tag_sep_not_tag_start: "is_tag_sep x \<Longrightarrow> \<not> is_tag_start x"
  using tag_start_name_char tag_sep_not_name_char by blast

lemma colon_tag_sep [simp]: "is_tag_sep (rune CHR '':'')"
  by (simp add: is_tag_sep_def)

lemma dropWhile_stop:
  "\<forall>x \<in> set xs. P x \<Longrightarrow> rest = [] \<or> \<not> P (hd rest) \<Longrightarrow> dropWhile P (xs @ rest) = rest"
  by (induction xs) (auto simp: dropWhile_eq_self_iff)

lemma TagComponent_accepts:
  assumes "is_tag_component c" "rest = [] \<or> \<not> is_name_char (hd rest)"
  shows "TagComponent (c @ rest) = Some rest"
proof -
  from assms(1) obtain a l where c: "c = a # l" and a: "is_tag_start a" and l: "\<forall>x \<in> set l. is_name_char x"
    by (cases c) (auto simp: is_tag_component_def)
  have "dropWhile is_name_char (l @ rest) = rest"
    using l assms(2) by (rule dropWhile_stop)
  then show ?thesis
    unfolding c using a by (simp add: TagComponent_eq del: dropWhile_append)
qed

lemma tag_sep_alt: "is_tag_sep s \<Longrightarrow> alt [chr CHR ''.'', chr CHR '':''] (s # r) = Some r"
  by (auto simp: is_tag_sep_def)

lemma tag_tail_hd: "is_tag_tail scs \<Longrightarrow> tag_tail scs @ rune CHR '':'' # r = [] \<or> \<not> is_name_char (hd (tag_tail scs @ rune CHR '':'' # r))"
  by (cases scs) (auto simp: is_tag_tail_def tag_sep_not_name_char)

lemma Tag_star_tail:
  "is_tag_tail scs \<Longrightarrow>
   star (seq [alt [chr CHR ''.'', chr CHR '':''], TagComponent]) (tag_tail scs @ rune CHR '':'' # rune CHR '':'' # rest)
     = Some (rune CHR '':'' # rune CHR '':'' # rest)"
proof (induction scs)
  case Nil
  show ?case
    by (simp del: seq_simps alt_simps, rule star_stop) (simp add: TagComponent_eq tag_sep_not_tag_start)
next
  case (Cons sc scs)
  obtain s c where sc: "sc = (s, c)" by (cases sc)
  from Cons.prems sc have s: "is_tag_sep s" and c: "is_tag_component c" and t: "is_tag_tail scs"
    by (auto simp: is_tag_tail_def)
  let ?tl = "tag_tail scs @ rune CHR '':'' # rune CHR '':'' # rest"
  have "TagComponent (c @ ?tl) = Some ?tl"
    using c tag_tail_hd [OF t] by (rule TagComponent_accepts)
  then have step: "seq [alt [chr CHR ''.'', chr CHR '':''], TagComponent] (s # c @ ?tl) = Some ?tl"
    using tag_sep_alt [OF s] by (simp del: alt_simps)
  have "star (seq [alt [chr CHR ''.'', chr CHR '':''], TagComponent]) (s # c @ ?tl)
        = star (seq [alt [chr CHR ''.'', chr CHR '':''], TagComponent]) ?tl"
    using step by (rule star_step [of "seq [alt [chr CHR ''.'', chr CHR '':''], TagComponent]" "s # c @ ?tl" ?tl]) simp
  with Cons.IH [OF t] sc show ?case by (simp del: seq_simps alt_simps)
qed

lemma Tag_accepts:
  assumes "is_tag_component c0" "is_tag_tail scs"
  shows "Tag (c0 @ tag_tail scs @ rune CHR '':'' # rune CHR '':'' # rest) = Some (rune CHR '':'' # rune CHR '':'' # rest)"
proof -
  have "TagComponent (c0 @ tag_tail scs @ rune CHR '':'' # rune CHR '':'' # rest)
        = Some (tag_tail scs @ rune CHR '':'' # rune CHR '':'' # rest)"
    using assms(1) tag_tail_hd [OF assms(2)] by (rule TagComponent_accepts)
  then show ?thesis
    unfolding Tag_def by (simp add: Tag_star_tail [OF assms(2)] del: alt_simps)
qed

lemma chr_Some_iff: "chr c buf = Some r \<longleftrightarrow> buf = rune c # r"
  by (cases buf) auto

lemma lits_Some_iff: "lits s buf = Some r \<longleftrightarrow> buf = map rune s @ r"
  by (induction s arbitrary: buf) (auto simp: chr_Some_iff split: option.splits)

lemma doc_index_Some:
  assumes "doc_index buf = Some r"
  shows "\<exists>sep b. buf = map rune ''doc'' @ sep # b \<and> is_tag_sep sep \<and>
           plus1 (cls CHR ''0'' CHR ''9'') (skip_sign b) = Some r"
proof -
  from assms obtain r1 r2 where 1: "lits ''doc'' buf = Some r1"
    and 2: "alt [chr CHR ''.'', chr CHR '':''] r1 = Some r2"
    and 3: "plus1 (cls CHR ''0'' CHR ''9'') (skip_sign r2) = Some r"
    unfolding doc_index_def
    by (auto simp: opt_minus simp del: lits_simps alt_simps split: option.splits)
  from 1 have b: "buf = map rune ''doc'' @ r1"
    by (simp only: lits_Some_iff)
  from 2 obtain sep where s: "r1 = sep # r2" "is_tag_sep sep"
    by (cases r1) (auto simp: is_tag_sep_def split: if_splits)
  from b s 3 show ?thesis by blast
qed

lemma name_prefix_unique:
  assumes "\<forall>x \<in> set xs. P x" "\<not> P y" "\<forall>x \<in> set xs'. P x" "\<not> P y'" "xs @ y # r = xs' @ y' # r'"
  shows "xs = xs' \<and> y = y' \<and> r = r'"
proof -
  have "takeWhile P (xs @ y # r) = xs" "dropWhile P (xs @ y # r) = y # r"
    using assms(1,2) by (simp_all add: takeWhile_append2 dropWhile_append2)
  moreover have "takeWhile P (xs' @ y' # r') = xs'" "dropWhile P (xs' @ y' # r') = y' # r'"
    using assms(3,4) by (simp_all add: takeWhile_append2 dropWhile_append2)
  ultimately show ?thesis using assms(5) by simp
qed

lemma tag_start_not_sign_digit:
  "is_tag_start a \<Longrightarrow> a \<noteq> rune CHR ''-'' \<and> \<not> is_digit a"
  by (auto simp: class_defs rune_def)

lemma doc_name_chars: "\<forall>x \<in> set (map rune ''doc''). is_name_char x"
  by (simp add: class_defs rune_def)

lemma tag_more_Cons:
  assumes "is_tag_tail scs"
  shows "\<exists>y r. tag_tail scs @ rune CHR '':'' # rune CHR '':'' # rest = y # r \<and> is_tag_sep y \<and>
           plus1 (cls CHR ''0'' CHR ''9'') (skip_sign r) = None"
proof (cases scs)
  case Nil
  then show ?thesis by (simp add: skip_sign_def digits_eq)
next
  case (Cons sc scs')
  obtain s c where sc: "sc = (s, c)" by (cases sc)
  from assms Cons sc have s: "is_tag_sep s" and c: "is_tag_component c"
    by (auto simp: is_tag_tail_def)
  from c obtain a l where cc: "c = a # l" "is_tag_start a"
    by (cases c) (auto simp: is_tag_component_def)
  with tag_start_not_sign_digit [of a] Cons sc s show ?thesis
    by (simp add: skip_sign_def digits_eq)
qed

lemma doc_index_tag:
  assumes "is_tag_component c0" "is_tag_tail scs"
  shows "doc_index (c0 @ tag_tail scs @ rune CHR '':'' # rune CHR '':'' # rest) = None"
proof (rule ccontr)
  assume "doc_index (c0 @ tag_tail scs @ rune CHR '':'' # rune CHR '':'' # rest) \<noteq> None"
  then obtain r where "doc_index (c0 @ tag_tail scs @ rune CHR '':'' # rune CHR '':'' # rest) = Some r"
    by blast
  from doc_index_Some [OF this] obtain sep b where
    e: "c0 @ tag_tail scs @ rune CHR '':'' # rune CHR '':'' # rest = map rune ''doc'' @ sep # b"
    and sep: "is_tag_sep sep" and d: "plus1 (cls CHR ''0'' CHR ''9'') (skip_sign b) = Some r"
    by blast
  from tag_more_Cons [OF assms(2), of rest] obtain y r' where
    m: "tag_tail scs @ rune CHR '':'' # rune CHR '':'' # rest = y # r'" and y: "is_tag_sep y"
    and n: "plus1 (cls CHR ''0'' CHR ''9'') (skip_sign r') = None"
    by blast
  have c0: "\<forall>x \<in> set c0. is_name_char x"
    using assms(1) by (cases c0) (auto simp: is_tag_component_def tag_start_name_char)
  from e m have "c0 @ y # r' = map rune ''doc'' @ sep # b" by simp
  with name_prefix_unique [OF c0 tag_sep_not_name_char [OF y] doc_name_chars tag_sep_not_name_char [OF sep]]
  have "r' = b" by blast
  with d n show False by simp
qed

lemma TagPrefix_tag:
  assumes "is_tag_component c0" "is_tag_tail scs"
  shows "TagPrefix (c0 @ tag_tail scs @ map rune ''::'' @ rest) = Some rest"
proof -
  have e: "c0 @ tag_tail scs @ map rune ''::'' @ rest = c0 @ tag_tail scs @ rune CHR '':'' # rune CHR '':'' # rest"
    by simp
  show ?thesis
    unfolding TagPrefix_unfold e
    by (simp add: doc_index_tag [OF assms] Tag_accepts [OF assms])
qed

lemma Key_rule_Nil: "Key_rule [] = None"
  by (simp add: Key_rule_unfold)

lemma Key_rule_None_iff: "Key_rule (x # r) = None \<longleftrightarrow> \<not> is_name_char x"
  by (simp add: Key_rule_unfold star_one opt_simp split: option.split)

lemma dot_not_name_char [simp]: "\<not> is_name_char (rune CHR ''.'')" "\<not> is_tag_start (rune CHR ''.'')"
  by (simp_all add: class_defs rune_def)

lemma bracket_not_name_char [simp]: "\<not> is_name_char (rune CHR ''['')"
  by (simp add: class_defs rune_def)

lemma Key_Index_exclusive: "Key_rule b \<noteq> None \<Longrightarrow> Index_rule b = None"
  by (cases b) (auto simp: Key_rule_Nil Key_rule_None_iff Index_rule_eq)

lemma Index_rule_dot: "Index_rule (rune CHR ''.'' # b) = None"
  by (simp add: Index_rule_eq)

lemma PathComponent_iff:
  "PathComponent buf = Some rest \<longleftrightarrow>
     (\<exists>b. buf = rune CHR ''.'' # b \<and> Key_rule b = Some rest) \<or>
     Index_rule buf = Some rest \<or>
     (\<exists>b. buf = rune CHR ''.'' # b \<and> Index_rule b = Some rest)"
proof (cases buf)
  case Nil
  then show ?thesis by (simp add: PathComponent_def opt_simp Index_rule_eq)
next
  case (Cons x b)
  show ?thesis
  proof (cases "x = rune CHR ''.''")
    case True
    show ?thesis
    proof (cases "Key_rule b")
      case None
      with True Cons show ?thesis
        by (simp add: PathComponent_def opt_simp Index_rule_dot split: option.split)
    next
      case (Some r)
      then have "Index_rule b = None" by (simp add: Key_Index_exclusive)
      with Some True Cons show ?thesis
        by (simp add: PathComponent_def opt_simp Index_rule_dot split: option.split)
    qed
  next
    case False
    with Cons show ?thesis
      by (simp add: PathComponent_def opt_simp split: option.split)
  qed
qed

lemma TagComponent_not_start: "\<not> is_tag_start x \<Longrightarrow> TagComponent (x # r) = None"
  by (simp add: TagComponent_eq)

lemma TagPrefix_dot: "TagPrefix (rune CHR ''.'' # buf) = None"
  unfolding TagPrefix_unfold
  by (simp add: doc_index_def Tag_def TagComponent_not_start)

lemma Reference_dot:
  "Reference (rune CHR ''.'' # buf) = (case Key_rule buf of None \<Rightarrow> None | Some r \<Rightarrow> FollowUpRef r)"
  unfolding Reference_def
  by (simp add: TagPrefix_dot opt_simp seq_single split: option.split)

lemma Key_rule_dot: "Key_rule (rune CHR ''.'' # buf) = None"
  by (simp add: Key_rule_None_iff)

lemma Reference_dot_dot: "Reference (rune CHR ''.'' # rune CHR ''.'' # buf) = None"
  by (simp add: Reference_dot Key_rule_dot)

lemma one_Some_iff: "one P buf = Some r \<longleftrightarrow> (\<exists>x. buf = x # r \<and> P x)"
  by (cases buf) auto

lemma Key_rule_shorter: "Key_rule b = Some r \<Longrightarrow> length r < length b"
proof -
  assume a: "Key_rule b = Some r"
  have le: "\<And>xs. length (dropWhile is_key_char xs) \<le> length xs"
    by (rule length_dropWhile_le)
  from a obtain x t where b: "b = x # t" by (cases b) (auto simp: Key_rule_Nil)
  let ?r1 = "dropWhile is_key_char t"
  from a b have "r = ?r1 \<or> (\<exists>y t2. ?r1 = rune CHR '':'' # y # t2 \<and> r = dropWhile is_key_char t2)"
    by (auto simp: Key_rule_unfold star_one opt_simp chr_Some_iff one_Some_iff simp del: one_simps
          split: option.splits)
  then show ?thesis
  proof
    assume "r = ?r1"
    with le [of t] b show ?thesis by simp
  next
    assume "\<exists>y t2. ?r1 = rune CHR '':'' # y # t2 \<and> r = dropWhile is_key_char t2"
    then obtain y t2 where 1: "?r1 = rune CHR '':'' # y # t2" and 2: "r = dropWhile is_key_char t2" by blast
    have "length ?r1 = Suc (Suc (length t2))" by (simp only: 1) simp
    with le [of t] le [of t2] 2 b show ?thesis by simp
  qed
qed

lemma Index_rule_shorter: "Index_rule b = Some r \<Longrightarrow> length r < length b"
  by (drule Index_rule_Some) auto

lemma PathComponent_shorter: "PathComponent b = Some r \<Longrightarrow> length r < length b"
  by (auto simp: PathComponent_iff dest: Key_rule_shorter Index_rule_shorter)

lemma star_total:
  assumes "\<And>b r. p b = Some r \<Longrightarrow> length r < length b"
  shows "\<exists>r. star p buf = Some r"
proof (induction buf rule: length_induct)
  case (1 buf)
  show ?case
  proof (cases "p buf")
    case None
    then show ?thesis by (simp add: star_stop)
  next
    case (Some r)
    from assms [OF Some] have l: "length r < length buf" .
    with 1 obtain r' where "star p r = Some r'" by blast
    with star_step [of p buf r, OF Some l] show ?thesis by simp
  qed
qed

lemma FollowUpRef_total: "\<exists>r. FollowUpRef buf = Some r"
  unfolding FollowUpRef_def by (rule star_total) (rule PathComponent_shorter)

lemma Reference_dot_key: "is_name_char x \<Longrightarrow> \<exists>r. Reference (rune CHR ''.'' # x # buf) = Some r"
proof -
  assume "is_name_char x"
  then obtain r1 where "Key_rule (x # buf) = Some r1"
    using Key_rule_None_iff [of x buf] by auto
  with FollowUpRef_total [of r1] show ?thesis
    by (simp add: Reference_dot)
qed

lemma Reference_tag_dot:
  "TagPrefix buf = Some (rune CHR ''.'' # r) \<Longrightarrow> Reference buf = FollowUpRef r"
  unfolding Reference_def
  by (simp add: seq_single split: option.split)

lemma Reference_tag_key:
  assumes "TagPrefix buf = Some r" "Key_rule r = Some r'"
  shows "Reference buf = FollowUpRef r'"
proof -
  from assms(2) obtain x t where r: "r = x # t"
    by (cases r) (auto simp: Key_rule_Nil)
  with assms(2) have "is_name_char x"
    using Key_rule_None_iff [of x t] by auto
  then have "x \<noteq> rune CHR ''.''" by auto
  with assms r show ?thesis
    unfolding Reference_def
    by (simp add: seq_single split: option.split)
qed



end
